theory Spec2Isabelle
  imports Complex_Main "HOL-Library.Sublist" "HOL-Library.AList"
begin

section \<open>Python values and the operations the crawler applies to them\<close>

text \<open>
  The crawler of \<^verbatim>\<open>src/src/agentic_crawler.py\<close> is dynamically typed: every value it
  takes from the reasoning oracle is whatever \<^verbatim>\<open>json.loads\<close> produced. Such a value is a
  \<open>json\<close>; a JSON object holds each key once, in insertion order. A Python float is a
  rational number or one of the three special values \<^verbatim>\<open>json.loads\<close> accepts
  (\<^verbatim>\<open>Infinity\<close>, \<^verbatim>\<open>-Infinity\<close>, \<^verbatim>\<open>NaN\<close>); only its comparison with an integer and its
  truth value are used.
\<close>

datatype pyfloat = Finite rat | PosInf | NegInf | NaN

datatype json =
    JNull
  | JBool bool
  | JInt int
  | JFloat pyfloat
  | JStr string
  | JList "json list"
  | JObj "(string \<times> json) list"

text \<open>
  The exceptions that can reach an \<^verbatim>\<open>except Exception\<close> clause of the crawler, or leave
  it. \<open>CollaboratorError msg\<close> is an exception raised by an external collaborator (the
  page fetcher, the oracle client, the persistent store) whose \<^verbatim>\<open>str()\<close> is \<open>msg\<close>.
\<close>

datatype exn = TypeError | KeyError | AttributeError | ValueError | CollaboratorError string

text \<open>Truth value of a value, as \<^verbatim>\<open>if x:\<close> and \<^verbatim>\<open>x and y\<close> and \<^verbatim>\<open>x or y\<close> test it.\<close>

fun py_truthy :: "json \<Rightarrow> bool" where
  "py_truthy JNull = False"
| "py_truthy (JBool b) = b"
| "py_truthy (JInt n) = (n \<noteq> 0)"
| "py_truthy (JFloat (Finite q)) = (q \<noteq> 0)"
| "py_truthy (JFloat f) = True"
| "py_truthy (JStr s) = (s \<noteq> [])"
| "py_truthy (JList xs) = (xs \<noteq> [])"
| "py_truthy (JObj kvs) = (kvs \<noteq> [])"

text \<open>\<^verbatim>\<open>d.get(key, default)\<close>: only a dict has the method.\<close>

fun py_get :: "json \<Rightarrow> string \<Rightarrow> json \<Rightarrow> exn + json" where
  "py_get (JObj kvs) k dflt = Inr (case map_of kvs k of None \<Rightarrow> dflt | Some v \<Rightarrow> v)"
| "py_get v k dflt = Inl AttributeError"

text \<open>\<^verbatim>\<open>x[key]\<close> for a string key: a dict looks the key up, a list or a string
  refuses a string index, no other JSON value is subscriptable.\<close>

fun py_getitem :: "json \<Rightarrow> string \<Rightarrow> exn + json" where
  "py_getitem (JObj kvs) k = (case map_of kvs k of None \<Rightarrow> Inl KeyError | Some v \<Rightarrow> Inr v)"
| "py_getitem v k = Inl TypeError"

text \<open>\<^verbatim>\<open>key in x\<close> for a string key: key membership in a dict, element membership in
  a list, substring test in a string, \<^verbatim>\<open>TypeError\<close> otherwise.\<close>

fun py_contains :: "string \<Rightarrow> json \<Rightarrow> exn + bool" where
  "py_contains k (JObj kvs) = Inr (k \<in> set (map fst kvs))"
| "py_contains k (JList xs) = Inr (JStr k \<in> set xs)"
| "py_contains k (JStr s) = Inr (sublist k s)"
| "py_contains k v = Inl TypeError"

text \<open>Iteration, as \<^verbatim>\<open>list.extend\<close> and a comprehension perform it: the elements of a
  list, the one-character strings of a string, the keys of a dict.\<close>

fun py_iter :: "json \<Rightarrow> exn + json list" where
  "py_iter (JList xs) = Inr xs"
| "py_iter (JStr s) = Inr (map (\<lambda>c. JStr [c]) s)"
| "py_iter (JObj kvs) = Inr (map (\<lambda>kv. JStr (fst kv)) kvs)"
| "py_iter v = Inl TypeError"

text \<open>\<^verbatim>\<open>x > n\<close> for an integer \<open>n\<close>: numbers compare (a bool as 0 or 1, \<^verbatim>\<open>NaN\<close> with
  nothing), every other JSON value raises \<^verbatim>\<open>TypeError\<close>.\<close>

fun py_gt :: "json \<Rightarrow> int \<Rightarrow> exn + bool" where
  "py_gt (JInt m) n = Inr (m > n)"
| "py_gt (JBool b) n = Inr ((if b then 1 else 0) > n)"
| "py_gt (JFloat (Finite q)) n = Inr (q > of_int n)"
| "py_gt (JFloat PosInf) n = Inr True"
| "py_gt (JFloat NegInf) n = Inr False"
| "py_gt (JFloat NaN) n = Inr False"
| "py_gt v n = Inl TypeError"

section \<open>Data model\<close>

text \<open>
  \<^verbatim>\<open>CrawlStrategy\<close> (a dataclass). An object of the class holds its four containers
  (three lists and a dict) by reference: with \<open>'r = nat\<close> the container fields are
  addresses into the container heap of the crawler, with \<open>'r = json\<close> they are the
  containers' contents, which is what \<^verbatim>\<open>dataclasses.asdict\<close> returns. The two scalar
  fields an oracle reply can overwrite are untyped at run time, hence \<open>json\<close>.
\<close>

record 'r crawl_strategy =
  name :: string
  description :: string
  target_patterns :: 'r
  depth_limit :: json
  follow_links :: json
  extract_patterns :: 'r
  success_metrics :: 'r
  adaptation_rules :: 'r

text \<open>\<^verbatim>\<open>CrawlContext\<close> (a dataclass). The intent, the domain knowledge and the two pattern
  fields are whatever the oracle's reply holds under their keys.\<close>

record crawl_context =
  user_intent :: json
  domain_knowledge :: json
  previous_attempts :: "json list"
  success_patterns :: json
  failure_patterns :: json
  time_constraints :: "int option"

text \<open>
  Modelled from the spec: the result object of the page fetcher. Its class belongs to the
  \<^verbatim>\<open>crawl4ai\<close> package and is not part of the repository; the spec's FetchOutcome gives
  it a success flag, extracted content, metadata and an optional ordered sequence of
  discovered links (\<open>None\<close>: the object has no \<^verbatim>\<open>links\<close> attribute).
\<close>

record fetch_outcome =
  success :: bool
  extracted_content :: json
  metadata :: json
  links :: "string list option"

text \<open>The dict \<^verbatim>\<open>results\<close> that \<^verbatim>\<open>_execute_with_monitoring\<close> builds and returns; its four
  keys are the fields. A dict value is an association list.\<close>

record crawl_results =
  primary_content :: "(string \<times> json) list"
  discovered_opportunities :: "(string \<times> json) list list"
  performance_metrics :: "(string \<times> json) list"
  adaptation_log :: "string list"

text \<open>
  What the crawler sends to the oracle. The text of a prompt is an f-string over these
  values; the oracle is any function of them. (The executor's prompt embeds the first 1000
  characters of the content and the first 20 links.)
\<close>

datatype prompt =
    IntentPrompt string "(string \<times> json) list" "(string \<times> json) list"
  | StrategyPrompt json string "(string \<times> bool) list" json "(string \<times> json crawl_strategy) list"
  | LinksPrompt json json string "string list"

text \<open>
  What a call of \<^verbatim>\<open>self.claude.messages.create\<close> followed by
  \<^verbatim>\<open>json.loads(response.content[0].text)\<close> yields: the call raised (network, timeout),
  the reply is not JSON text, or the decoded value.
\<close>

datatype oracle_reply = Unavailable string | Malformed | Parsed json

text \<open>The calls the crawler makes to its collaborators, in order. \<open>FetchCall i u\<close> is the
  \<open>i\<close>-th fetch of a run (0: the primary fetch), \<open>StoreInsert r\<close> an insert into the table
  \<^verbatim>\<open>crawl_learning\<close>.\<close>

datatype event = OracleCall prompt | FetchCall nat json | StoreInsert json

text \<open>
  The collaborators and library functions of one run, none of them part of the repository:
  the oracle, the page fetcher (\<open>Inl msg\<close>: \<^verbatim>\<open>arun\<close> raised an exception whose text is
  \<open>msg\<close>; the \<open>nat\<close> is the index of the fetch within the run, so that two fetches of one
  URL may differ), the insert into the persistent store (\<open>Some msg\<close>: it raised), the rows
  of the table \<^verbatim>\<open>learned_patterns\<close>, each given by its columns \<^verbatim>\<open>pattern_type\<close> (a string;
  the spec keys the Pattern Store by URL pattern or domain) and \<^verbatim>\<open>pattern_data\<close> (\<open>Inl msg\<close>:
  the query raised, or a row lacks a column), the host part
  that \<^verbatim>\<open>urlparse\<close> finds (\<open>None\<close>: it raises \<^verbatim>\<open>ValueError\<close>), \<^verbatim>\<open>str()\<close> of a value that is
  not a string, the length of \<^verbatim>\<open>str()\<close> of a dict, and the clock.
\<close>

record world =
  claude_create :: "prompt \<Rightarrow> oracle_reply"
  arun :: "nat \<Rightarrow> json \<Rightarrow> string + fetch_outcome"
  supabase_insert :: "json \<Rightarrow> string option"
  supabase_select :: "string + (string \<times> json) list"
  urlparse_netloc :: "string \<Rightarrow> string option"
  py_str :: "json \<Rightarrow> string"
  str_len :: "(string \<times> json) list \<Rightarrow> nat"
  now_isoformat :: "nat \<Rightarrow> string"
  time_time :: "nat \<Rightarrow> rat"

text \<open>
  An \<^verbatim>\<open>AgenticCrawler\<close> and the part of the Python heap it can reach. \<open>strategies\<close> maps a
  catalog key to the address of a \<^verbatim>\<open>CrawlStrategy\<close> object in \<open>objects\<close>; the container
  fields of an object are addresses into \<open>containers\<close>. A new object gets the next free
  address (the length of the heap). \<open>trace\<close> is not a field of the class: it records
  the calls made to the collaborators.
\<close>

record crawler =
  strategies :: "(string \<times> nat) list"
  learned_patterns :: "(string \<times> json) list"
  success_history :: "json list"
  objects :: "nat crawl_strategy list"
  containers :: "json list"
  trace :: "event list"

definition emit :: "event \<Rightarrow> crawler \<Rightarrow> crawler" where
  "emit e s = s\<lparr>trace := trace s @ [e]\<rparr>"

definition new_container :: "json \<Rightarrow> crawler \<Rightarrow> nat \<times> crawler" where
  "new_container v s = (length (containers s), s\<lparr>containers := containers s @ [v]\<rparr>)"

definition new_object :: "nat crawl_strategy \<Rightarrow> crawler \<Rightarrow> nat \<times> crawler" where
  "new_object ob s = (length (objects s), s\<lparr>objects := objects s @ [ob]\<rparr>)"

text \<open>The constructor call \<^verbatim>\<open>CrawlStrategy(name=..., ...)\<close> on freshly built containers
  (list and dict displays, or the copies \<^verbatim>\<open>asdict\<close> made).\<close>

definition CrawlStrategy :: "json crawl_strategy \<Rightarrow> crawler \<Rightarrow> nat \<times> crawler" where
  "CrawlStrategy d s =
     (let (tp, s1) = new_container (target_patterns d) s;
          (ep, s2) = new_container (extract_patterns d) s1;
          (sm, s3) = new_container (success_metrics d) s2;
          (ar, s4) = new_container (adaptation_rules d) s3
      in new_object
           \<lparr>name = name d, description = description d, target_patterns = tp,
            depth_limit = depth_limit d, follow_links = follow_links d,
            extract_patterns = ep, success_metrics = sm, adaptation_rules = ar\<rparr> s4)"

text \<open>\<^verbatim>\<open>dataclasses.asdict\<close>: the fields of the object at address \<open>r\<close>, each container
  copied (recursively, so the copy shares nothing with the original).\<close>

definition asdict :: "crawler \<Rightarrow> nat \<Rightarrow> json crawl_strategy" where
  "asdict s r =
     (let ob = objects s ! r in
      \<lparr>name = name ob, description = description ob,
       target_patterns = containers s ! target_patterns ob,
       depth_limit = depth_limit ob, follow_links = follow_links ob,
       extract_patterns = containers s ! extract_patterns ob,
       success_metrics = containers s ! success_metrics ob,
       adaptation_rules = containers s ! adaptation_rules ob\<rparr>)"

section \<open>The strategy catalog and the constructor of the crawler\<close>

text \<open>The three entries of \<^verbatim>\<open>_load_base_strategies\<close>, as values. The thresholds are
  float literals; \<open>Finite (4/5)\<close> stands for the float written \<^verbatim>\<open>0.8\<close>.\<close>

definition deep_research :: "json crawl_strategy" where
  "deep_research =
     \<lparr>name = ''Deep Research'',
      description = ''Thorough multi-page analysis for comprehensive understanding'',
      target_patterns = JList [JStr ''article'', JStr ''blog'', JStr ''research'', JStr ''study'', JStr ''analysis''],
      depth_limit = JInt 3,
      follow_links = JBool True,
      extract_patterns = JList [JStr ''main content'', JStr ''citations'', JStr ''references'', JStr ''related links''],
      success_metrics = JObj [(''content_depth'', JFloat (Finite (4/5))), (''relevance_score'', JFloat (Finite (7/10)))],
      adaptation_rules = JList [JStr ''increase_depth_if_shallow'', JStr ''follow_citations'']\<rparr>"

definition quick_scan :: "json crawl_strategy" where
  "quick_scan =
     \<lparr>name = ''Quick Scanner'',
      description = ''Fast overview crawl for key information extraction'',
      target_patterns = JList [JStr ''summary'', JStr ''overview'', JStr ''key points'', JStr ''highlights''],
      depth_limit = JInt 1,
      follow_links = JBool False,
      extract_patterns = JList [JStr ''headings'', JStr ''bullet points'', JStr ''key metrics''],
      success_metrics = JObj [(''speed'', JFloat (Finite (9/10))), (''coverage'', JFloat (Finite (3/5)))],
      adaptation_rules = JList [JStr ''prioritize_structured_data'']\<rparr>"

definition discovery_mode :: "json crawl_strategy" where
  "discovery_mode =
     \<lparr>name = ''Discovery Explorer'',
      description = ''Proactive discovery of related opportunities and content'',
      target_patterns = JList [JStr ''sitemap'', JStr ''directory'', JStr ''index'', JStr ''catalog''],
      depth_limit = JInt 2,
      follow_links = JBool True,
      extract_patterns = JList [JStr ''navigation'', JStr ''categories'', JStr ''related topics''],
      success_metrics = JObj [(''discovery_rate'', JFloat (Finite (4/5))), (''novelty'', JFloat (Finite (7/10)))],
      adaptation_rules = JList [JStr ''expand_to_related_domains'', JStr ''follow_category_links'']\<rparr>"

definition base_catalog :: "(string \<times> json crawl_strategy) list" where
  "base_catalog =
     [(''deep_research'', deep_research), (''quick_scan'', quick_scan),
      (''discovery_mode'', discovery_mode)]"

text \<open>\<^verbatim>\<open>_load_base_strategies\<close>: builds the three objects and returns the dict of their
  addresses.\<close>

definition load_base_strategies :: "crawler \<Rightarrow> (string \<times> nat) list \<times> crawler" where
  "load_base_strategies s =
     (let (r1, s1) = CrawlStrategy deep_research s;
          (r2, s2) = CrawlStrategy quick_scan s1;
          (r3, s3) = CrawlStrategy discovery_mode s2
      in ([(''deep_research'', r1), (''quick_scan'', r2), (''discovery_mode'', r3)], s3))"

text \<open>\<^verbatim>\<open>_load_learned_patterns\<close>: one entry per row of the table \<^verbatim>\<open>learned_patterns\<close>, a
  later row replacing an earlier one of the same type; the empty dict when anything in
  the \<^verbatim>\<open>try\<close> block raises.\<close>

definition load_learned_patterns :: "world \<Rightarrow> (string \<times> json) list" where
  "load_learned_patterns w =
     (case supabase_select w of
        Inl e \<Rightarrow> []
      | Inr rows \<Rightarrow> foldl (\<lambda>patterns row. AList.update (fst row) (snd row) patterns) [] rows)"

text \<open>\<^verbatim>\<open>AgenticCrawler.__init__\<close>.\<close>

definition new_crawler :: "world \<Rightarrow> crawler" where
  "new_crawler w =
     (let s0 = \<lparr>strategies = [], learned_patterns = [], success_history = [],
                objects = [], containers = [], trace = []\<rparr>;
          (catalog, s1) = load_base_strategies s0
      in s1\<lparr>strategies := catalog, learned_patterns := load_learned_patterns w,
            success_history := []\<rparr>)"

text \<open>The catalog as \<^verbatim>\<open>select_strategy\<close> serialises it into its prompt:
  \<^verbatim>\<open>{name: asdict(strategy) for name, strategy in self.strategies.items()}\<close>.\<close>

definition catalog_dict :: "crawler \<Rightarrow> (string \<times> json crawl_strategy) list" where
  "catalog_dict s = map (\<lambda>kr. (fst kr, asdict s (snd kr))) (strategies s)"

section \<open>Intent Analyzer: \<^verbatim>\<open>analyze_intent\<close>\<close>

definition fallback_context :: crawl_context where
  "fallback_context =
     \<lparr>user_intent = JStr ''research'', domain_knowledge = JObj [], previous_attempts = [],
      success_patterns = JList [], failure_patterns = JList [], time_constraints = None\<rparr>"

text \<open>The part of the \<^verbatim>\<open>try\<close> block after \<^verbatim>\<open>json.loads\<close>: four \<^verbatim>\<open>analysis.get\<close> calls.\<close>

definition context_of_analysis :: "json \<Rightarrow> exn + crawl_context" where
  "context_of_analysis analysis =
     (case py_get analysis ''primary_intent'' (JStr ''research'') of Inl e \<Rightarrow> Inl e
      | Inr intent \<Rightarrow>
     (case py_get analysis ''domain_insights'' (JObj []) of Inl e \<Rightarrow> Inl e
      | Inr insights \<Rightarrow>
     (case py_get analysis ''recommended_patterns'' (JList []) of Inl e \<Rightarrow> Inl e
      | Inr recommended \<Rightarrow>
     (case py_get analysis ''avoid_patterns'' (JList []) of Inl e \<Rightarrow> Inl e
      | Inr avoid \<Rightarrow>
        Inr \<lparr>user_intent = intent, domain_knowledge = insights, previous_attempts = [],
             success_patterns = recommended, failure_patterns = avoid,
             time_constraints = None\<rparr>))))"

text \<open>\<open>ctxt\<close> is the optional dict argument; \<^verbatim>\<open>context or {}\<close> is the dict itself, or the
  empty dict for \<^verbatim>\<open>None\<close>. Every exception of the \<^verbatim>\<open>try\<close> block ends in the fallback.\<close>

definition intent_prompt :: "string \<Rightarrow> (string \<times> json) list option \<Rightarrow> crawler \<Rightarrow> prompt" where
  "intent_prompt user_query ctxt s =
     IntentPrompt user_query (case ctxt of None \<Rightarrow> [] | Some c \<Rightarrow> c) (learned_patterns s)"

definition analyze_intent ::
  "world \<Rightarrow> string \<Rightarrow> (string \<times> json) list option \<Rightarrow> crawler \<Rightarrow> crawl_context \<times> crawler" where
  "analyze_intent w user_query ctxt s =
     (let p = intent_prompt user_query ctxt s;
          s1 = emit (OracleCall p) s
      in case claude_create w p of
           Unavailable m \<Rightarrow> (fallback_context, s1)
         | Malformed \<Rightarrow> (fallback_context, s1)
         | Parsed analysis \<Rightarrow>
             (case context_of_analysis analysis of
                Inl e \<Rightarrow> (fallback_context, s1)
              | Inr c \<Rightarrow> (c, s1)))"

section \<open>Strategy Selector: \<^verbatim>\<open>select_strategy\<close> and \<^verbatim>\<open>_modify_strategy\<close>\<close>

definition domain_indicators :: "string \<Rightarrow> (string \<times> bool) list" where
  "domain_indicators netloc =
     [(''news_site'', list_ex (\<lambda>i. sublist i netloc) [''news'', ''cnn'', ''bbc'', ''reuters'', ''bloomberg'']),
      (''academic'', list_ex (\<lambda>i. sublist i netloc) [''.edu'', ''arxiv'', ''scholar'', ''research'']),
      (''ecommerce'', list_ex (\<lambda>i. sublist i netloc) [''shop'', ''store'', ''amazon'', ''ebay'']),
      (''social'', list_ex (\<lambda>i. sublist i netloc) [''twitter'', ''linkedin'', ''facebook'', ''reddit''])]"

text \<open>An attribute assignment on the object at address \<open>r\<close>.\<close>

definition set_object :: "nat \<Rightarrow> (nat crawl_strategy \<Rightarrow> nat crawl_strategy) \<Rightarrow> crawler \<Rightarrow> crawler" where
  "set_object r f s = s\<lparr>objects := (objects s)[r := f (objects s ! r)]\<rparr>"

text \<open>\<^verbatim>\<open>lst.extend(v)\<close> on the list at address \<open>a\<close>: \<open>v\<close> is iterated first, so nothing
  changes when it is not iterable.\<close>

definition list_extend :: "nat \<Rightarrow> json \<Rightarrow> crawler \<Rightarrow> exn + crawler" where
  "list_extend a v s =
     (case containers s ! a of
        JList xs \<Rightarrow>
          (case py_iter v of
             Inl e \<Rightarrow> Inl e
           | Inr ys \<Rightarrow> Inr (s\<lparr>containers := (containers s)[a := JList (xs @ ys)]\<rparr>))
      | _ \<Rightarrow> Inl AttributeError)"

text \<open>The three \<^verbatim>\<open>if "..." in modifications:\<close> statements of \<^verbatim>\<open>_modify_strategy\<close>.\<close>

definition apply_depth_limit :: "json \<Rightarrow> nat \<Rightarrow> crawler \<Rightarrow> exn + crawler" where
  "apply_depth_limit modifications modified s =
     (case py_contains ''depth_limit'' modifications of
        Inl e \<Rightarrow> Inl e
      | Inr False \<Rightarrow> Inr s
      | Inr True \<Rightarrow>
          (case py_getitem modifications ''depth_limit'' of
             Inl e \<Rightarrow> Inl e
           | Inr v \<Rightarrow> Inr (set_object modified (\<lambda>ob. ob\<lparr>depth_limit := v\<rparr>) s)))"

definition apply_additional_patterns :: "json \<Rightarrow> nat \<Rightarrow> crawler \<Rightarrow> exn + crawler" where
  "apply_additional_patterns modifications modified s =
     (case py_contains ''additional_patterns'' modifications of
        Inl e \<Rightarrow> Inl e
      | Inr False \<Rightarrow> Inr s
      | Inr True \<Rightarrow>
          (case py_getitem modifications ''additional_patterns'' of
             Inl e \<Rightarrow> Inl e
           | Inr v \<Rightarrow> list_extend (extract_patterns (objects s ! modified)) v s))"

definition apply_follow_links :: "json \<Rightarrow> nat \<Rightarrow> crawler \<Rightarrow> exn + crawler" where
  "apply_follow_links modifications modified s =
     (case py_contains ''follow_links'' modifications of
        Inl e \<Rightarrow> Inl e
      | Inr False \<Rightarrow> Inr s
      | Inr True \<Rightarrow>
          (case py_getitem modifications ''follow_links'' of
             Inl e \<Rightarrow> Inl e
           | Inr v \<Rightarrow> Inr (set_object modified (\<lambda>ob. ob\<lparr>follow_links := v\<rparr>) s)))"

text \<open>\<^verbatim>\<open>_modify_strategy\<close>: \<^verbatim>\<open>modified = CrawlStrategy(**asdict(strategy))\<close> is a new object
  on new containers; the modifications go to it. An exception leaves the heap as it was
  when it was raised.\<close>

definition modify_strategy :: "nat \<Rightarrow> json \<Rightarrow> crawler \<Rightarrow> (exn + nat) \<times> crawler" where
  "modify_strategy strategy modifications s =
     (let (modified, s1) = CrawlStrategy (asdict s strategy) s in
      case apply_depth_limit modifications modified s1 of
        Inl e \<Rightarrow> (Inl e, s1)
      | Inr s2 \<Rightarrow>
     (case apply_additional_patterns modifications modified s2 of
        Inl e \<Rightarrow> (Inl e, s2)
      | Inr s3 \<Rightarrow>
     (case apply_follow_links modifications modified s3 of
        Inl e \<Rightarrow> (Inl e, s3)
      | Inr s4 \<Rightarrow> (Inr modified, s4))))"

text \<open>\<^verbatim>\<open>self.strategies[k]\<close>: the keys are strings, so any other hashable value is a
  \<^verbatim>\<open>KeyError\<close>; a list or a dict is not hashable.\<close>

definition catalog_lookup :: "crawler \<Rightarrow> json \<Rightarrow> exn + nat" where
  "catalog_lookup s k =
     (case k of
        JStr key \<Rightarrow> (case map_of (strategies s) key of None \<Rightarrow> Inl KeyError | Some r \<Rightarrow> Inr r)
      | JList xs \<Rightarrow> Inl TypeError
      | JObj kvs \<Rightarrow> Inl TypeError
      | _ \<Rightarrow> Inl KeyError)"

text \<open>The body of the \<^verbatim>\<open>try\<close> block of \<^verbatim>\<open>select_strategy\<close>.\<close>

definition select_decision :: "world \<Rightarrow> prompt \<Rightarrow> crawler \<Rightarrow> (exn + nat) \<times> crawler" where
  "select_decision w p s =
     (case claude_create w p of
        Unavailable m \<Rightarrow> (Inl (CollaboratorError m), s)
      | Malformed \<Rightarrow> (Inl ValueError, s)
      | Parsed decision \<Rightarrow>
     (case py_get decision ''selected_strategy'' (JStr ''deep_research'') of
        Inl e \<Rightarrow> (Inl e, s)
      | Inr strategy_name \<Rightarrow>
     (case py_get decision ''modifications'' (JObj []) of
        Inl e \<Rightarrow> (Inl e, s)
      | Inr modifications \<Rightarrow>
     (case catalog_lookup s strategy_name of
        Inl e \<Rightarrow> (Inl e, s)
      | Inr selected_strategy \<Rightarrow>
          if py_truthy modifications
          then modify_strategy selected_strategy modifications s
          else (Inr selected_strategy, s)))))"

text \<open>\<^verbatim>\<open>select_strategy\<close>. \<^verbatim>\<open>urlparse\<close> is called before the \<^verbatim>\<open>try\<close> block, so its
  \<^verbatim>\<open>ValueError\<close> leaves the method; every exception of the block ends in
  \<^verbatim>\<open>self.strategies["deep_research"]\<close>.\<close>

definition strategy_prompt :: "crawl_context \<Rightarrow> string \<Rightarrow> string \<Rightarrow> crawler \<Rightarrow> prompt" where
  "strategy_prompt c target_url netloc s =
     StrategyPrompt (user_intent c) target_url (domain_indicators netloc) (success_patterns c)
       (catalog_dict s)"

definition select_strategy ::
  "world \<Rightarrow> crawl_context \<Rightarrow> string \<Rightarrow> crawler \<Rightarrow> (exn + nat) \<times> crawler" where
  "select_strategy w c target_url s =
     (case urlparse_netloc w target_url of
        None \<Rightarrow> (Inl ValueError, s)
      | Some netloc \<Rightarrow>
          (let p = strategy_prompt c target_url netloc s;
               s1 = emit (OracleCall p) s
           in case select_decision w p s1 of
                (Inr r, s2) \<Rightarrow> (Inr r, s2)
              | (Inl e, s2) \<Rightarrow> (catalog_lookup s2 (JStr ''deep_research''), s2)))"

section \<open>Crawl Executor: \<^verbatim>\<open>_execute_with_monitoring\<close> and \<^verbatim>\<open>_identify_follow_up_links\<close>\<close>

text \<open>\<^verbatim>\<open>[item["url"] for item in items]\<close>: the first item without a \<^verbatim>\<open>url\<close> raises.\<close>

fun collect_urls :: "json list \<Rightarrow> exn + json list" where
  "collect_urls [] = Inr []"
| "collect_urls (item # items) =
     (case py_getitem item ''url'' of
        Inl e \<Rightarrow> Inl e
      | Inr u \<Rightarrow> (case collect_urls items of Inl e \<Rightarrow> Inl e | Inr us \<Rightarrow> Inr (u # us)))"

definition recommended_urls :: "json \<Rightarrow> exn + json list" where
  "recommended_urls link_analysis =
     (case py_get link_analysis ''recommended_links'' (JList []) of
        Inl e \<Rightarrow> Inl e
      | Inr recommended \<Rightarrow>
          (case py_iter recommended of Inl e \<Rightarrow> Inl e | Inr items \<Rightarrow> collect_urls items))"

definition links_prompt :: "fetch_outcome \<Rightarrow> crawl_context \<Rightarrow> nat \<Rightarrow> crawler \<Rightarrow> prompt" where
  "links_prompt primary_result c strategy s =
     LinksPrompt (extracted_content primary_result) (user_intent c)
       (description (objects s ! strategy))
       (case links primary_result of None \<Rightarrow> [] | Some ls \<Rightarrow> take 20 ls)"

text \<open>\<^verbatim>\<open>_identify_follow_up_links\<close>: every exception of its \<^verbatim>\<open>try\<close> block gives \<^verbatim>\<open>[]\<close>.\<close>

definition identify_follow_up_links ::
  "world \<Rightarrow> fetch_outcome \<Rightarrow> crawl_context \<Rightarrow> nat \<Rightarrow> crawler \<Rightarrow> json list \<times> crawler" where
  "identify_follow_up_links w primary_result c strategy s =
     (let p = links_prompt primary_result c strategy s;
          s1 = emit (OracleCall p) s
      in case claude_create w p of
           Unavailable m \<Rightarrow> ([], s1)
         | Malformed \<Rightarrow> ([], s1)
         | Parsed link_analysis \<Rightarrow>
             (case recommended_urls link_analysis of
                Inl e \<Rightarrow> ([], s1)
              | Inr urls \<Rightarrow> (urls, s1)))"

text \<open>\<^verbatim>\<open>{link_url}\<close> inside an f-string: a string as it is, any other value through
  \<^verbatim>\<open>str()\<close>.\<close>

definition format_value :: "world \<Rightarrow> json \<Rightarrow> string" where
  "format_value w v = (case v of JStr x \<Rightarrow> x | _ \<Rightarrow> py_str w v)"

definition failed_to_crawl :: "world \<Rightarrow> json \<Rightarrow> string \<Rightarrow> string" where
  "failed_to_crawl w link_url e = ''Failed to crawl '' @ format_value w link_url @ '': '' @ e"

definition opportunity :: "json \<Rightarrow> fetch_outcome \<Rightarrow> (string \<times> json) list" where
  "opportunity link_url follow_result =
     [(''url'', link_url), (''content'', extracted_content follow_result),
      (''relation_to_primary'', JStr ''discovered_link'')]"

text \<open>The loop \<^verbatim>\<open>for link_url in follow_up_links[:3]\<close>, on the links still to visit;
  \<open>i\<close> is the index of the next fetch of the run.\<close>

fun crawl_follow_ups ::
  "world \<Rightarrow> nat \<Rightarrow> json list \<Rightarrow> crawl_results \<Rightarrow> crawler \<Rightarrow> crawl_results \<times> crawler" where
  "crawl_follow_ups w i [] results s = (results, s)"
| "crawl_follow_ups w i (link_url # rest) results s =
     (let s1 = emit (FetchCall i link_url) s in
      case arun w i link_url of
        Inl e \<Rightarrow>
          crawl_follow_ups w (Suc i) rest
            (results\<lparr>adaptation_log := adaptation_log results @ [failed_to_crawl w link_url e]\<rparr>) s1
      | Inr follow_result \<Rightarrow>
          if success follow_result
          then crawl_follow_ups w (Suc i) rest
                 (results\<lparr>discovered_opportunities :=
                    discovered_opportunities results @ [opportunity link_url follow_result]\<rparr>) s1
          else crawl_follow_ups w (Suc i) rest results s1)"

definition empty_results :: crawl_results where
  "empty_results =
     \<lparr>primary_content = [], discovered_opportunities = [], performance_metrics = [],
      adaptation_log = []\<rparr>"

definition primary_entry :: "world \<Rightarrow> string \<Rightarrow> fetch_outcome \<Rightarrow> (string \<times> json) list" where
  "primary_entry w url primary_result =
     [(''url'', JStr url), (''content'', extracted_content primary_result),
      (''metadata'', metadata primary_result), (''timestamp'', JStr (now_isoformat w 0))]"

text \<open>
  \<^verbatim>\<open>_execute_with_monitoring\<close>. The primary \<^verbatim>\<open>arun\<close> stands outside every \<^verbatim>\<open>try\<close>, and
  so does the test \<^verbatim>\<open>strategy.follow_links and strategy.depth_limit > 1\<close>: an exception of
  either leaves the method (an exception while the browser starts is counted with the
  primary fetch).
\<close>

definition execute_with_monitoring ::
  "world \<Rightarrow> string \<Rightarrow> nat \<Rightarrow> crawl_context \<Rightarrow> crawler \<Rightarrow> (exn + crawl_results) \<times> crawler" where
  "execute_with_monitoring w url strategy c s =
     (let s1 = emit (FetchCall 0 (JStr url)) s in
      case arun w 0 (JStr url) of
        Inl e \<Rightarrow> (Inl (CollaboratorError e), s1)
      | Inr primary_result \<Rightarrow>
          if success primary_result
          then
            (let results = empty_results\<lparr>primary_content := primary_entry w url primary_result\<rparr> in
             if py_truthy (follow_links (objects s1 ! strategy))
             then
               (case py_gt (depth_limit (objects s1 ! strategy)) 1 of
                  Inl e \<Rightarrow> (Inl e, s1)
                | Inr False \<Rightarrow> (Inr results, s1)
                | Inr True \<Rightarrow>
                    (let (follow_up_links, s2) =
                           identify_follow_up_links w primary_result c strategy s1;
                         (results2, s3) =
                           crawl_follow_ups w 1 (take 3 follow_up_links) results s2
                     in (Inr results2, s3)))
             else (Inr results, s1))
          else (Inr empty_results, s1))"

section \<open>Learning Recorder: \<^verbatim>\<open>_learn_from_crawl\<close>\<close>

text \<open>The dict \<^verbatim>\<open>learning_record\<close>, for the host \<open>netloc\<close> of the URL. The duration is a
  difference of two floats, taken here without rounding.\<close>

definition learning_record ::
  "world \<Rightarrow> string \<Rightarrow> string \<Rightarrow> nat \<Rightarrow> crawl_results \<Rightarrow> rat \<Rightarrow> crawler \<Rightarrow> json" where
  "learning_record w netloc user_query strategy results start_time s =
     JObj [(''timestamp'', JStr (now_isoformat w 1)),
           (''url_pattern'', JStr netloc),
           (''user_intent'', JStr user_query),
           (''strategy_effectiveness'',
              JObj [(''duration'', JFloat (Finite (time_time w 1 - start_time))),
                    (''content_extracted'', JInt (int (str_len w (primary_content results)))),
                    (''opportunities_found'', JInt (int (length (discovered_opportunities results)))),
                    (''strategy_used'', JStr (name (objects s ! strategy)))]),
           (''adaptation_notes'', JList (map JStr (adaptation_log results)))]"

text \<open>\<^verbatim>\<open>xs[-100:]\<close>.\<close>

definition last_100 :: "'a list \<Rightarrow> 'a list" where
  "last_100 xs = drop (length xs - 100) xs"

text \<open>\<^verbatim>\<open>_learn_from_crawl\<close>. \<^verbatim>\<open>urlparse(url)\<close> is evaluated while the record is built,
  before the insert; the insert stands in a \<^verbatim>\<open>try\<close> whose handler only prints.\<close>

definition learn_from_crawl ::
  "world \<Rightarrow> string \<Rightarrow> string \<Rightarrow> nat \<Rightarrow> crawl_results \<Rightarrow> rat \<Rightarrow> crawler \<Rightarrow> (exn + unit) \<times> crawler" where
  "learn_from_crawl w url user_query strategy results start_time s =
     (case urlparse_netloc w url of
        None \<Rightarrow> (Inl ValueError, s)
      | Some netloc \<Rightarrow>
          (let record = learning_record w netloc user_query strategy results start_time s;
               s1 = emit (StoreInsert record) s;
               s2 = (case supabase_insert w record of None \<Rightarrow> s1 | Some e \<Rightarrow> s1);
               s3 = s2\<lparr>success_history := success_history s2 @ [record]\<rparr>
           in (Inr (),
               if length (success_history s3) > 100
               then s3\<lparr>success_history := last_100 (success_history s3)\<rparr>
               else s3)))"

section \<open>Orchestrator: \<^verbatim>\<open>adaptive_crawl\<close>\<close>

text \<open>The four phases in sequence; no \<^verbatim>\<open>try\<close> around any of them, and no test of
  \<open>url\<close> before the first.\<close>

definition adaptive_crawl ::
  "world \<Rightarrow> string \<Rightarrow> string \<Rightarrow> (string \<times> json) list option \<Rightarrow> crawler \<Rightarrow>
     (exn + crawl_results) \<times> crawler" where
  "adaptive_crawl w url user_query ctxt s =
     (let start_time = time_time w 0;
          (crawl_context, s1) = analyze_intent w user_query ctxt s
      in case select_strategy w crawl_context url s1 of
           (Inl e, s2) \<Rightarrow> (Inl e, s2)
         | (Inr strategy, s2) \<Rightarrow>
      (case execute_with_monitoring w url strategy crawl_context s2 of
           (Inl e, s3) \<Rightarrow> (Inl e, s3)
         | (Inr results, s3) \<Rightarrow>
      (case learn_from_crawl w url user_query strategy results start_time s3 of
           (Inl e, s4) \<Rightarrow> (Inl e, s4)
         | (Inr u, s4) \<Rightarrow> (Inr results, s4))))"

section \<open>What a run leaves behind\<close>

text \<open>The calls a method added to the trace, and the follow-up fetches among them.\<close>

definition events_since :: "crawler \<Rightarrow> crawler \<Rightarrow> event list" where
  "events_since s s' = drop (length (trace s)) (trace s')"

fun is_follow_up_fetch :: "event \<Rightarrow> bool" where
  "is_follow_up_fetch (FetchCall i u) = (0 < i)"
| "is_follow_up_fetch e = False"

text \<open>
  The follow-up loop in closed form, for the links \<open>ls\<close> it visits with fetch indices from
  \<open>i\<close>: the fetches it issues, the log entries it adds (one for every fetch that
  raises) and the opportunities it adds (one for every fetch that returns a successful
  outcome). Lemma \<open>crawl_follow_ups_eq\<close> proves the loop equal to them.
\<close>

definition fetch_calls :: "nat \<Rightarrow> json list \<Rightarrow> event list" where
  "fetch_calls i ls = map (\<lambda>(k, u). FetchCall k u) (enumerate i ls)"

definition raised_entries :: "world \<Rightarrow> nat \<Rightarrow> json list \<Rightarrow> string list" where
  "raised_entries w i ls =
     concat (map (\<lambda>(k, u). case arun w k u of Inl e \<Rightarrow> [failed_to_crawl w u e] | Inr r \<Rightarrow> [])
       (enumerate i ls))"

definition fetched_entries :: "world \<Rightarrow> nat \<Rightarrow> json list \<Rightarrow> (string \<times> json) list list" where
  "fetched_entries w i ls =
     concat (map (\<lambda>(k, u). case arun w k u of
                              Inl e \<Rightarrow> []
                            | Inr r \<Rightarrow> if success r then [opportunity u r] else [])
       (enumerate i ls))"

text \<open>The object and the containers the constructor puts on the heap for the value \<open>d\<close>,
  when the first free container address is \<open>a\<close>.\<close>

definition heap_object :: "json crawl_strategy \<Rightarrow> nat \<Rightarrow> nat crawl_strategy" where
  "heap_object d a =
     \<lparr>name = name d, description = description d, target_patterns = a,
      depth_limit = depth_limit d, follow_links = follow_links d,
      extract_patterns = a + 1, success_metrics = a + 2, adaptation_rules = a + 3\<rparr>"

definition heap_containers :: "json crawl_strategy \<Rightarrow> json list" where
  "heap_containers d = [target_patterns d, extract_patterns d, success_metrics d, adaptation_rules d]"

text \<open>The crawler after the constructor has built an object for the value \<open>d\<close>.\<close>

definition alloc :: "json crawl_strategy \<Rightarrow> crawler \<Rightarrow> crawler" where
  "alloc d s =
     s\<lparr>objects := objects s @ [heap_object d (length (containers s))],
       containers := containers s @ heap_containers d\<rparr>"

text \<open>
  \<^verbatim>\<open>_modify_strategy\<close> and the selection read on values instead of heap objects: what the
  new object holds, as a function of what the copied entry held. These functions state
  results; the lemmas \<open>modify_strategy_alloc\<close>, \<open>select_decision_value\<close> and
  \<open>select_strategy_value\<close> prove that the methods compute them.
\<close>

definition value_extend :: "json crawl_strategy \<Rightarrow> json \<Rightarrow> exn + json crawl_strategy" where
  "value_extend d v =
     (case extract_patterns d of
        JList xs \<Rightarrow>
          (case py_iter v of
             Inl e \<Rightarrow> Inl e
           | Inr ys \<Rightarrow> Inr (d\<lparr>extract_patterns := JList (xs @ ys)\<rparr>))
      | _ \<Rightarrow> Inl AttributeError)"

definition value_depth_limit :: "json \<Rightarrow> json crawl_strategy \<Rightarrow> exn + json crawl_strategy" where
  "value_depth_limit modifications d =
     (case py_contains ''depth_limit'' modifications of
        Inl e \<Rightarrow> Inl e
      | Inr False \<Rightarrow> Inr d
      | Inr True \<Rightarrow>
          (case py_getitem modifications ''depth_limit'' of
             Inl e \<Rightarrow> Inl e
           | Inr v \<Rightarrow> Inr (d\<lparr>depth_limit := v\<rparr>)))"

definition value_additional_patterns :: "json \<Rightarrow> json crawl_strategy \<Rightarrow> exn + json crawl_strategy" where
  "value_additional_patterns modifications d =
     (case py_contains ''additional_patterns'' modifications of
        Inl e \<Rightarrow> Inl e
      | Inr False \<Rightarrow> Inr d
      | Inr True \<Rightarrow>
          (case py_getitem modifications ''additional_patterns'' of
             Inl e \<Rightarrow> Inl e
           | Inr v \<Rightarrow> value_extend d v))"

definition value_follow_links :: "json \<Rightarrow> json crawl_strategy \<Rightarrow> exn + json crawl_strategy" where
  "value_follow_links modifications d =
     (case py_contains ''follow_links'' modifications of
        Inl e \<Rightarrow> Inl e
      | Inr False \<Rightarrow> Inr d
      | Inr True \<Rightarrow>
          (case py_getitem modifications ''follow_links'' of
             Inl e \<Rightarrow> Inl e
           | Inr v \<Rightarrow> Inr (d\<lparr>follow_links := v\<rparr>)))"

definition modified_value :: "json crawl_strategy \<Rightarrow> json \<Rightarrow> exn + json crawl_strategy" where
  "modified_value d modifications =
     (case value_depth_limit modifications d of
        Inl e \<Rightarrow> Inl e
      | Inr d1 \<Rightarrow>
     (case value_additional_patterns modifications d1 of
        Inl e \<Rightarrow> Inl e
      | Inr d2 \<Rightarrow> value_follow_links modifications d2))"

text \<open>
  The heap invariant of a crawler: every catalog entry is an object of the heap whose
  container fields are addresses of the heap, and the entries hold the values
  \<^verbatim>\<open>_load_base_strategies\<close> gave them. It holds for a new crawler
  (\<open>heap_ok_new_crawler\<close>) and every method keeps it (\<open>heap_ok_adaptive_crawl\<close>).
\<close>

definition refs_ok :: "crawler \<Rightarrow> nat \<Rightarrow> bool" where
  "refs_ok s r \<longleftrightarrow>
     r < length (objects s) \<and>
     target_patterns (objects s ! r) < length (containers s) \<and>
     extract_patterns (objects s ! r) < length (containers s) \<and>
     success_metrics (objects s ! r) < length (containers s) \<and>
     adaptation_rules (objects s ! r) < length (containers s)"

definition heap_ok :: "crawler \<Rightarrow> bool" where
  "heap_ok s \<longleftrightarrow> catalog_dict s = base_catalog \<and> list_all (refs_ok s) (map snd (strategies s))"

definition value_lookup :: "(string \<times> json crawl_strategy) list \<Rightarrow> json \<Rightarrow> exn + json crawl_strategy" where
  "value_lookup cat k =
     (case k of
        JStr key \<Rightarrow> (case map_of cat key of None \<Rightarrow> Inl KeyError | Some d \<Rightarrow> Inr d)
      | JList xs \<Rightarrow> Inl TypeError
      | JObj kvs \<Rightarrow> Inl TypeError
      | _ \<Rightarrow> Inl KeyError)"

definition decided_value :: "(string \<times> json crawl_strategy) list \<Rightarrow> oracle_reply \<Rightarrow> exn + json crawl_strategy" where
  "decided_value cat reply =
     (case reply of
        Unavailable m \<Rightarrow> Inl (CollaboratorError m)
      | Malformed \<Rightarrow> Inl ValueError
      | Parsed decision \<Rightarrow>
     (case py_get decision ''selected_strategy'' (JStr ''deep_research'') of
        Inl e \<Rightarrow> Inl e
      | Inr strategy_name \<Rightarrow>
     (case py_get decision ''modifications'' (JObj []) of
        Inl e \<Rightarrow> Inl e
      | Inr modifications \<Rightarrow>
     (case value_lookup cat strategy_name of
        Inl e \<Rightarrow> Inl e
      | Inr d \<Rightarrow> if py_truthy modifications then modified_value d modifications else Inr d))))"

definition selected_value :: "(string \<times> json crawl_strategy) list \<Rightarrow> oracle_reply \<Rightarrow> exn + json crawl_strategy" where
  "selected_value cat reply =
     (case decided_value cat reply of
        Inr d \<Rightarrow> Inr d
      | Inl e \<Rightarrow> value_lookup cat (JStr ''deep_research''))"

text \<open>A sequence of record operations on one crawler, each with its own collaborators and
  arguments; an operation that raises leaves the crawler as \<^verbatim>\<open>_learn_from_crawl\<close> left it.\<close>

fun learn_all ::
  "(world \<times> string \<times> string \<times> nat \<times> crawl_results \<times> rat) list \<Rightarrow> crawler \<Rightarrow> crawler" where
  "learn_all [] s = s"
| "learn_all ((w, url, q, r, res, t) # calls) s =
     learn_all calls (snd (learn_from_crawl w url q r res t s))"

section \<open>Example collaborators\<close>

definition page :: fetch_outcome where
  "page = \<lparr>success = True, extracted_content = JStr ''page'', metadata = JObj [], links = Some []\<rparr>"

definition no_page :: fetch_outcome where
  "no_page = \<lparr>success = False, extracted_content = JNull, metadata = JObj [], links = None\<rparr>"

text \<open>
  The oracle is unreachable, the store refuses every insert and holds one learned
  pattern, the fetcher raises on the empty URL and returns a page for any other.
  \<open>urlparse_netloc\<close> agrees with \<^verbatim>\<open>urlparse\<close> on the three URLs the examples use.
\<close>

definition example_world :: world where
  "example_world =
     \<lparr>claude_create = (\<lambda>p. Unavailable ''timeout''),
      arun = (\<lambda>i u. if u = JStr [] then Inl ''Invalid URL'' else Inr page),
      supabase_insert = (\<lambda>r. Some ''store unreachable''),
      supabase_select = Inr [(''news'', JStr ''follow_citations'')],
      urlparse_netloc = (\<lambda>u. if u = ''http://['' then None
                              else if u = ''https://example.com'' then Some ''example.com''
                              else Some []),
      py_str = (\<lambda>v. ''?''),
      str_len = (\<lambda>d. 2 + 10 * length d),
      now_isoformat = (\<lambda>i. ''2025-01-01T00:00:00''),
      time_time = (\<lambda>i. of_nat i)\<rparr>"

text \<open>A crawler whose history window holds exactly 100 records.\<close>

definition full_window :: crawler where
  "full_window = (new_crawler example_world)\<lparr>success_history := map JInt [1..100]\<rparr>"

text \<open>An oracle that answers the executor's question with the given URLs and no other
  question at all.\<close>

definition link :: "string \<Rightarrow> json" where
  "link u = JObj [(''url'', JStr u), (''reasoning'', JStr ''related page'')]"

definition recommending :: "string list \<Rightarrow> world \<Rightarrow> world" where
  "recommending urls w = w
     \<lparr>claude_create := (\<lambda>p. case p of
          LinksPrompt content intent descr ls \<Rightarrow>
            Parsed (JObj [(''recommended_links'', JList (map link urls))])
        | _ \<Rightarrow> Unavailable ''timeout'')\<rparr>"

definition five_links :: world where
  "five_links = recommending [''https://example.com/a'', ''https://example.com/b'',
     ''https://example.com/c'', ''https://example.com/d'', ''https://example.com/e''] example_world"

definition three_links :: "world \<Rightarrow> world" where
  "three_links w = recommending [''https://example.com/a'', ''https://example.com/b'',
     ''https://example.com/c''] w"

text \<open>Three recommended links; the second follow-up fetch raises, or returns an
  unsuccessful outcome.\<close>

definition second_raises :: world where
  "second_raises =
     three_links (example_world\<lparr>arun := (\<lambda>i u. if i = 2 then Inl ''timeout'' else Inr page)\<rparr>)"

definition second_unsuccessful :: world where
  "second_unsuccessful =
     three_links (example_world\<lparr>arun := (\<lambda>i u. if i = 2 then Inr no_page else Inr page)\<rparr>)"


text \<open>Oracles that give one fixed reply: a strategy with a negative depth limit, a
  strategy name the catalog does not have, a strategy with three modifications.\<close>

definition replying :: "json \<Rightarrow> world \<Rightarrow> world" where
  "replying v w = w\<lparr>claude_create := (\<lambda>p. Parsed v)\<rparr>"


definition unknown_strategy :: world where
  "unknown_strategy = replying (JObj [(''selected_strategy'', JStr ''stealth_mode'')]) example_world"

definition modifying :: world where
  "modifying = replying
     (JObj [(''selected_strategy'', JStr ''quick_scan''),
            (''modifications'',
               JObj [(''depth_limit'', JInt 2), (''additional_patterns'', JList [JStr ''prices'']),
                     (''follow_links'', JBool True)])]) example_world"

definition modified_quick_scan :: "json crawl_strategy" where
  "modified_quick_scan = quick_scan
     \<lparr>depth_limit := JInt 2, follow_links := JBool True,
      extract_patterns := JList [JStr ''headings'', JStr ''bullet points'', JStr ''key metrics'',
                                JStr ''prices'']\<rparr>"

text \<open>An oracle that names an intent outside the four of the analyzer's prompt, and a
  fetcher that raises on every URL.\<close>

definition shopping_intent :: world where
  "shopping_intent = replying (JObj [(''primary_intent'', JStr ''shopping'')]) example_world"



section \<open>Learning Recorder\<close>

lemma emit_simps:
  "strategies (emit e s) = strategies s"
  "learned_patterns (emit e s) = learned_patterns s"
  "success_history (emit e s) = success_history s"
  "objects (emit e s) = objects s"
  "containers (emit e s) = containers s"
  "trace (emit e s) = trace s @ [e]"
  by (simp_all add: emit_def)

lemma last_100_length: "length (last_100 xs) \<le> 100"
  by (simp add: last_100_def)

lemma last_100_short: "length xs \<le> 100 \<Longrightarrow> last_100 xs = xs"
  by (simp add: last_100_def)

lemma last_100_snoc_full: "length xs = 100 \<Longrightarrow> last_100 (xs @ [x]) = tl xs @ [x]"
  by (cases xs) (simp_all add: last_100_def)

lemma last_100_last: "last (last_100 (xs @ [x])) = x"
  by (simp add: last_100_def)

lemma learn_from_crawl_history:
  "urlparse_netloc w url = Some netloc \<Longrightarrow>
   learn_from_crawl w url q r res t s =
     (Inr (), (emit (StoreInsert (learning_record w netloc q r res t s)) s)
        \<lparr>success_history := last_100 (success_history s @ [learning_record w netloc q r res t s])\<rparr>)"
  by (auto simp: learn_from_crawl_def Let_def emit_simps last_100_short split: option.splits)

lemma learn_from_crawl_raises:
  "urlparse_netloc w url = None \<Longrightarrow> learn_from_crawl w url q r res t s = (Inl ValueError, s)"
  by (simp add: learn_from_crawl_def)

lemma learn_from_crawl_length:
  "length (success_history s) \<le> 100 \<Longrightarrow>
   length (success_history (snd (learn_from_crawl w url q r res t s))) \<le> 100"
  by (cases "urlparse_netloc w url")
     (simp_all add: learn_from_crawl_history learn_from_crawl_raises last_100_length)

lemma learn_from_crawl_learned_patterns:
  "learned_patterns (snd (learn_from_crawl w url q r res t s)) = learned_patterns s"
  by (cases "urlparse_netloc w url")
     (simp_all add: learn_from_crawl_history learn_from_crawl_raises emit_simps)

lemma learn_all_length:
  "length (success_history s) \<le> 100 \<Longrightarrow> length (success_history (learn_all calls s)) \<le> 100"
  by (induction calls s rule: learn_all.induct) (simp_all add: learn_from_crawl_length)

lemma new_crawler_history: "success_history (new_crawler w) = []"
  by (simp add: new_crawler_def Let_def split: prod.splits)

text \<open>
  C6. From a new crawler, no sequence of record operations makes the window longer than
  100. The window after a record operation does not depend on the outcome of the insert
  into the persistent store. A record operation whose URL \<^verbatim>\<open>urlparse\<close> accepts returns
  normally and makes the window the last 100 entries of the old window followed by the new
  record: the record is the newest entry, a window of fewer than 100 entries just grows,
  and a window of 100 entries loses its oldest one. (\<^verbatim>\<open>adaptive_crawl\<close> reaches the
  recorder only with a URL that \<^verbatim>\<open>select_strategy\<close> has parsed already.)
\<close>

theorem learning_window_bounded_fifo:
  "length (success_history (learn_all calls (new_crawler w0))) \<le> 100 \<and>
   success_history (snd (learn_from_crawl (w\<lparr>supabase_insert := outcome\<rparr>) url q r res t s))
     = success_history (snd (learn_from_crawl w url q r res t s)) \<and>
   (urlparse_netloc w url = Some netloc \<longrightarrow>
      (let record = learning_record w netloc q r res t s;
           s' = snd (learn_from_crawl w url q r res t s)
       in fst (learn_from_crawl w url q r res t s) = Inr () \<and>
          success_history s' = last_100 (success_history s @ [record]) \<and>
          length (success_history s') \<le> 100 \<and>
          last (success_history s') = record \<and>
          (length (success_history s) < 100 \<longrightarrow> success_history s' = success_history s @ [record]) \<and>
          (length (success_history s) = 100 \<longrightarrow> success_history s' = tl (success_history s) @ [record])))"
proof -
  have bound: "length (success_history (learn_all calls (new_crawler w0))) \<le> 100"
    by (rule learn_all_length) (simp add: new_crawler_history)
  have same: "success_history (snd (learn_from_crawl (w\<lparr>supabase_insert := outcome\<rparr>) url q r res t s))
     = success_history (snd (learn_from_crawl w url q r res t s))"
    by (cases "urlparse_netloc w url")
       (simp_all add: learn_from_crawl_raises learn_from_crawl_history learning_record_def)
  have step: "urlparse_netloc w url = Some netloc \<longrightarrow>
      (let record = learning_record w netloc q r res t s;
           s' = snd (learn_from_crawl w url q r res t s)
       in fst (learn_from_crawl w url q r res t s) = Inr () \<and>
          success_history s' = last_100 (success_history s @ [record]) \<and>
          length (success_history s') \<le> 100 \<and>
          last (success_history s') = record \<and>
          (length (success_history s) < 100 \<longrightarrow> success_history s' = success_history s @ [record]) \<and>
          (length (success_history s) = 100 \<longrightarrow> success_history s' = tl (success_history s) @ [record]))"
    by (simp add: learn_from_crawl_history Let_def last_100_length last_100_last
        last_100_short last_100_snoc_full)
  from bound same step show ?thesis by (intro conjI)
qed

theorem learning_window_bounded_fifo_witness:
  "urlparse_netloc example_world ''https://example.com'' = Some ''example.com'' \<and>
   supabase_insert example_world
     (learning_record example_world ''example.com'' ''find deals'' 0 empty_results 0 full_window)
     = Some ''store unreachable'' \<and>
   length (success_history full_window) = 100 \<and>
   success_history (snd (learn_from_crawl example_world ''https://example.com'' ''find deals'' 0
       empty_results 0 full_window))
     = map JInt [2..100] @
       [learning_record example_world ''example.com'' ''find deals'' 0 empty_results 0 full_window]"
proof -
  have n: "urlparse_netloc example_world ''https://example.com'' = Some ''example.com''"
    by (simp add: example_world_def)
  have l: "length (success_history full_window) = 100"
    by (simp add: full_window_def)
  have i: "supabase_insert example_world x = Some ''store unreachable''" for x
    by (simp add: example_world_def)
  have t: "tl (success_history full_window) = map JInt [2..100]"
    by (simp add: full_window_def upto_rec1 [of 1 100] flip: map_tl)
  have "success_history (snd (learn_from_crawl example_world ''https://example.com''
          ''find deals'' 0 empty_results 0 full_window))
        = tl (success_history full_window) @
          [learning_record example_world ''example.com'' ''find deals'' 0 empty_results 0 full_window]"
    using learning_window_bounded_fifo [where calls = "[]" and ?w0.0 = example_world
        and w = example_world and url = "''https://example.com''" and netloc = "''example.com''"
        and q = "''find deals''" and r = 0 and res = empty_results and t = 0 and s = full_window
        and outcome = "\<lambda>r. None"]
      n l
    by (simp add: Let_def last_100_snoc_full)
  with n l i show ?thesis
    by (simp only: t simp_thms)
qed

text \<open>
  C10. The record operation does not touch \<open>learned_patterns\<close>: the pattern store a new
  crawler loaded is the pattern store after a record operation that completed.
\<close>

theorem learn_from_crawl_keeps_learned_patterns:
  "learned_patterns (new_crawler example_world) = [(''news'', JStr ''follow_citations'')] \<and>
   fst (learn_from_crawl example_world ''https://example.com'' ''find deals'' 0 empty_results 0
          (new_crawler example_world)) = Inr () \<and>
   learned_patterns (snd (learn_from_crawl example_world ''https://example.com'' ''find deals'' 0
          empty_results 0 (new_crawler example_world)))
     = [(''news'', JStr ''follow_citations'')]"
proof -
  have "learned_patterns (new_crawler example_world) = [(''news'', JStr ''follow_citations'')]"
    by (simp add: new_crawler_def load_learned_patterns_def example_world_def Let_def
        split: prod.splits)
  moreover have "urlparse_netloc example_world ''https://example.com'' = Some ''example.com''"
    by (simp add: example_world_def)
  ultimately show ?thesis
    by (simp add: learn_from_crawl_history emit_simps)
qed

section \<open>The heap of a new crawler\<close>

lemma CrawlStrategy_eq:
  "CrawlStrategy d s =
     (length (objects s),
      s\<lparr>objects := objects s @ [heap_object d (length (containers s))],
        containers := containers s @ heap_containers d\<rparr>)"
  by (simp add: CrawlStrategy_def new_container_def new_object_def heap_object_def
      heap_containers_def)

lemma new_crawler_eq:
  "new_crawler w =
     \<lparr>strategies = [(''deep_research'', 0), (''quick_scan'', 1), (''discovery_mode'', 2)],
      learned_patterns = load_learned_patterns w,
      success_history = [],
      objects = [heap_object deep_research 0, heap_object quick_scan 4, heap_object discovery_mode 8],
      containers = heap_containers deep_research @ heap_containers quick_scan @
                   heap_containers discovery_mode,
      trace = []\<rparr>"
  by (simp add: new_crawler_def load_base_strategies_def CrawlStrategy_eq heap_containers_def
      eval_nat_numeral)

lemma new_crawler_sel:
  "strategies (new_crawler w) = [(''deep_research'', 0), (''quick_scan'', 1), (''discovery_mode'', 2)]"
  "objects (new_crawler w) = [heap_object deep_research 0, heap_object quick_scan 4, heap_object discovery_mode 8]"
  "containers (new_crawler w) = heap_containers deep_research @ heap_containers quick_scan @
                   heap_containers discovery_mode"
  "trace (new_crawler w) = []"
  "success_history (new_crawler w) = []"
  "learned_patterns (new_crawler w) = load_learned_patterns w"
  by (simp_all add: new_crawler_eq)

lemma catalog_dict_new_crawler: "catalog_dict (new_crawler w) = base_catalog"
  by (simp add: catalog_dict_def new_crawler_sel asdict_def base_catalog_def heap_object_def
      heap_containers_def deep_research_def quick_scan_def discovery_mode_def)

lemma deep_research_follows:
  "py_truthy (follow_links (objects (new_crawler w) ! 0))"
  "py_gt (depth_limit (objects (new_crawler w) ! 0)) 1 = Inr True"
  by (simp_all add: new_crawler_sel heap_object_def deep_research_def)

section \<open>Crawl Executor\<close>

lemma crawl_follow_ups_eq:
  "crawl_follow_ups w i ls results s =
     (results\<lparr>discovered_opportunities := discovered_opportunities results @ fetched_entries w i ls,
              adaptation_log := adaptation_log results @ raised_entries w i ls\<rparr>,
      s\<lparr>trace := trace s @ fetch_calls i ls\<rparr>)"
proof (induction ls arbitrary: i results s)
  case Nil
  then show ?case
    by (simp add: raised_entries_def fetched_entries_def fetch_calls_def)
next
  case (Cons u ls)
  show ?case
  proof (cases "arun w i u")
    case (Inl e)
    then show ?thesis
      by (simp add: Cons.IH raised_entries_def fetched_entries_def fetch_calls_def emit_def)
  next
    case (Inr r)
    then show ?thesis
      by (simp add: Cons.IH raised_entries_def fetched_entries_def fetch_calls_def emit_def)
  qed
qed

lemma length_fetched_entries: "length (fetched_entries w i ls) \<le> length ls"
proof (induction ls arbitrary: i)
  case Nil
  then show ?case by (simp add: fetched_entries_def)
next
  case (Cons u ls)
  have "length (fetched_entries w (Suc i) ls) \<le> length ls" by (rule Cons.IH)
  then show ?case
    by (cases "arun w i u") (simp_all add: fetched_entries_def)
qed

lemma identify_trace:
  "snd (identify_follow_up_links w pr c r s) = emit (OracleCall (links_prompt pr c r s)) s"
  by (simp add: identify_follow_up_links_def Let_def split: oracle_reply.splits sum.splits)

lemma execute_failed_primary:
  "arun w 0 (JStr url) = Inr pr \<Longrightarrow> \<not> success pr \<Longrightarrow>
   execute_with_monitoring w url strategy c s = (Inr empty_results, emit (FetchCall 0 (JStr url)) s)"
  by (simp add: execute_with_monitoring_def Let_def)

lemma execute_raised_primary:
  "arun w 0 (JStr url) = Inl e \<Longrightarrow>
   execute_with_monitoring w url strategy c s =
     (Inl (CollaboratorError e), emit (FetchCall 0 (JStr url)) s)"
  by (simp add: execute_with_monitoring_def Let_def)

lemma execute_follow_ups:
  assumes "arun w 0 (JStr url) = Inr pr" and "success pr"
    and "py_truthy (follow_links (objects s ! strategy))"
    and "py_gt (depth_limit (objects s ! strategy)) 1 = Inr True"
  shows "execute_with_monitoring w url strategy c s =
     (let s1 = emit (FetchCall 0 (JStr url)) s;
          ls = take 3 (fst (identify_follow_up_links w pr c strategy s1))
      in (Inr \<lparr>primary_content = primary_entry w url pr,
                discovered_opportunities = fetched_entries w 1 ls,
                performance_metrics = [],
                adaptation_log = raised_entries w 1 ls\<rparr>,
          s\<lparr>trace := trace s @ [FetchCall 0 (JStr url), OracleCall (links_prompt pr c strategy s1)]
                   @ fetch_calls 1 ls\<rparr>))"
  using assms
  by (simp add: execute_with_monitoring_def Let_def crawl_follow_ups_eq empty_results_def
      emit_def split_beta identify_trace)

lemma execute_no_follow_up:
  assumes "arun w 0 (JStr url) = Inr pr" and "success pr"
    and "\<not> py_truthy (follow_links (objects s ! strategy)) \<or>
         py_gt (depth_limit (objects s ! strategy)) 1 = Inr False"
  shows "execute_with_monitoring w url strategy c s =
     (Inr (empty_results\<lparr>primary_content := primary_entry w url pr\<rparr>),
      emit (FetchCall 0 (JStr url)) s)"
  using assms
  by (auto simp: execute_with_monitoring_def Let_def emit_def)

lemma execute_depth_not_comparable:
  assumes "arun w 0 (JStr url) = Inr pr" and "success pr"
    and "py_truthy (follow_links (objects s ! strategy))"
    and "py_gt (depth_limit (objects s ! strategy)) 1 = Inl e"
  shows "execute_with_monitoring w url strategy c s = (Inl e, emit (FetchCall 0 (JStr url)) s)"
  using assms
  by (simp add: execute_with_monitoring_def Let_def emit_def)

lemma filter_follow_up_fetch_calls: "length (filter is_follow_up_fetch (fetch_calls i ls)) \<le> length ls"
  by (rule order_trans [OF length_filter_le]) (simp add: fetch_calls_def)

lemma execute_cases:
  obtains (raised) e where "arun w 0 (JStr url) = Inl e"
  | (failed) pr where "arun w 0 (JStr url) = Inr pr" "\<not> success pr"
  | (plain) pr where "arun w 0 (JStr url) = Inr pr" "success pr"
      "\<not> py_truthy (follow_links (objects s ! strategy)) \<or>
         py_gt (depth_limit (objects s ! strategy)) 1 = Inr False"
  | (type_error) pr e where "arun w 0 (JStr url) = Inr pr" "success pr"
      "py_truthy (follow_links (objects s ! strategy))"
      "py_gt (depth_limit (objects s ! strategy)) 1 = Inl e"
  | (follow) pr where "arun w 0 (JStr url) = Inr pr" "success pr"
      "py_truthy (follow_links (objects s ! strategy))"
      "py_gt (depth_limit (objects s ! strategy)) 1 = Inr True"
proof (cases "arun w 0 (JStr url)")
  case (Inl e)
  then show ?thesis by (rule raised)
next
  case (Inr pr)
  show ?thesis
  proof (cases "success pr")
    case False
    with Inr show ?thesis by (rule failed)
  next
    case True
    show ?thesis
    proof (cases "py_truthy (follow_links (objects s ! strategy))")
      case False
      with Inr True show ?thesis by (intro plain) auto
    next
      case t: True
      show ?thesis
      proof (cases "py_gt (depth_limit (objects s ! strategy)) 1")
        case (Inl e)
        with Inr True t show ?thesis by (rule type_error)
      next
        case b: (Inr b)
        show ?thesis
        proof (cases b)
          case True
          with Inr \<open>success pr\<close> t b show ?thesis by (intro follow) auto
        next
          case False
          with Inr True t b show ?thesis by (intro plain) auto
        qed
      qed
    qed
  qed
qed

lemma collect_urls_links: "collect_urls (map link urls) = Inr (map JStr urls)"
  by (induction urls) (simp_all add: link_def)

lemma recommending_links:
  "fst (identify_follow_up_links (recommending urls w) pr c r s) = map JStr urls"
  by (simp add: identify_follow_up_links_def recommending_def links_prompt_def
      recommended_urls_def collect_urls_links Let_def)

lemma recommending_sel:
  "arun (recommending urls w) = arun w"
  "py_str (recommending urls w) = py_str w"
  "now_isoformat (recommending urls w) = now_isoformat w"
  by (simp_all add: recommending_def)



text \<open>
  C5. Whatever the oracle recommends and whatever the fetches return, a run of the
  executor issues at most 3 follow-up fetches (also when it raises), and a result it
  returns holds at most 3 opportunities.
\<close>

theorem follow_ups_bounded:
  "length (filter is_follow_up_fetch
      (events_since s (snd (execute_with_monitoring w url strategy c s)))) \<le> 3 \<and>
   (case fst (execute_with_monitoring w url strategy c s) of
      Inl e \<Rightarrow> True
    | Inr results \<Rightarrow> length (discovered_opportunities results) \<le> 3)"
proof (cases rule: execute_cases [where w = w and url = url and s = s and strategy = strategy])
  case (raised e)
  then show ?thesis
    by (simp add: execute_raised_primary events_since_def emit_def)
next
  case (failed pr)
  then show ?thesis
    by (simp add: execute_failed_primary events_since_def emit_def empty_results_def)
next
  case (plain pr)
  then show ?thesis
    by (simp add: execute_no_follow_up events_since_def emit_def empty_results_def)
next
  case (type_error pr e)
  then show ?thesis
    by (simp add: execute_depth_not_comparable events_since_def emit_def)
next
  case (follow pr)
  let ?ls = "take 3 (fst (identify_follow_up_links w pr c strategy (emit (FetchCall 0 (JStr url)) s)))"
  have "length (filter is_follow_up_fetch (fetch_calls 1 ?ls)) \<le> 3"
    by (rule order_trans [OF filter_follow_up_fetch_calls]) simp
  moreover have "length (fetched_entries w 1 ?ls) \<le> 3"
    by (rule order_trans [OF length_fetched_entries]) simp
  ultimately show ?thesis
    using follow by (simp add: execute_follow_ups events_since_def Let_def)
qed

lemma five_links_links:
  "fst (identify_follow_up_links five_links pr c r s) =
     [JStr ''https://example.com/a'', JStr ''https://example.com/b'',
      JStr ''https://example.com/c'', JStr ''https://example.com/d'',
      JStr ''https://example.com/e'']"
  by (simp add: five_links_def recommending_links)

theorem follow_ups_bounded_witness:
  "length (filter is_follow_up_fetch
      (events_since (new_crawler five_links)
        (snd (execute_with_monitoring five_links ''https://example.com'' 0 fallback_context
               (new_crawler five_links))))) = 3 \<and>
   map (\<lambda>opp. map_of opp ''url'')
     (discovered_opportunities (projr (fst
        (execute_with_monitoring five_links ''https://example.com'' 0 fallback_context
               (new_crawler five_links)))))
     = [Some (JStr ''https://example.com/a''), Some (JStr ''https://example.com/b''),
        Some (JStr ''https://example.com/c'')]"
proof -
  have a: "arun five_links i (JStr (CHR ''h'' # u)) = Inr page" for i u
    by (simp add: five_links_def recommending_sel example_world_def)
  have s: "success page"
    by (simp add: page_def)
  show ?thesis
    using follow_ups_bounded [of "new_crawler five_links" five_links "''https://example.com''"
        0 fallback_context]
    by (simp add: execute_follow_ups [OF a s deep_research_follows] Let_def five_links_links
        fetched_entries_def raised_entries_def a s fetch_calls_def opportunity_def
        events_since_def new_crawler_sel)
qed

text \<open>
  C7 (as amended). After a successful primary fetch under a strategy that follows links,
  the executor fetches every one of the first three recommended links, whatever happened
  to the others. A fetch that raises adds one entry \<^verbatim>\<open>Failed to crawl <url>: <error>\<close> to
  the adaptation log; a fetch that returns a successful outcome adds one opportunity; a
  fetch that returns an unsuccessful outcome adds nothing. With three links of which the
  second raises, the result holds the opportunities of the first and the third and one
  log entry naming the second.
\<close>

theorem follow_up_exceptions_isolated:
  assumes "arun w 0 (JStr url) = Inr pr" and "success pr"
    and "py_truthy (follow_links (objects s ! strategy))"
    and "py_gt (depth_limit (objects s ! strategy)) 1 = Inr True"
    and "ls = take 3 (fst (identify_follow_up_links w pr c strategy (emit (FetchCall 0 (JStr url)) s)))"
  shows "fst (execute_with_monitoring w url strategy c s) =
           Inr \<lparr>primary_content = primary_entry w url pr,
                 discovered_opportunities = fetched_entries w 1 ls,
                 performance_metrics = [],
                 adaptation_log = raised_entries w 1 ls\<rparr> \<and>
         filter is_follow_up_fetch (events_since s (snd (execute_with_monitoring w url strategy c s)))
           = fetch_calls 1 ls \<and>
         (\<forall>u1 r1 u2 e u3 r3.
            ls = [u1, JStr u2, u3] \<and> arun w 1 u1 = Inr r1 \<and> success r1 \<and>
            arun w 2 (JStr u2) = Inl e \<and> arun w 3 u3 = Inr r3 \<and> success r3 \<longrightarrow>
            fetched_entries w 1 ls = [opportunity u1 r1, opportunity u3 r3] \<and>
            raised_entries w 1 ls = [''Failed to crawl '' @ u2 @ '': '' @ e])"
proof -
  have f: "filter is_follow_up_fetch (fetch_calls i xs) = fetch_calls i xs" if "0 < i" for i xs
    using that by (induction xs arbitrary: i) (simp_all add: fetch_calls_def)
  have "fst (execute_with_monitoring w url strategy c s) =
           Inr \<lparr>primary_content = primary_entry w url pr,
                 discovered_opportunities = fetched_entries w 1 ls,
                 performance_metrics = [],
                 adaptation_log = raised_entries w 1 ls\<rparr>"
    using assms by (simp add: execute_follow_ups Let_def)
  moreover have "filter is_follow_up_fetch
        (events_since s (snd (execute_with_monitoring w url strategy c s))) = fetch_calls 1 ls"
    using assms by (simp add: execute_follow_ups Let_def events_since_def f)
  moreover have "fetched_entries w 1 ls = [opportunity u1 r1, opportunity u3 r3] \<and>
      raised_entries w 1 ls = [''Failed to crawl '' @ u2 @ '': '' @ e]"
    if "ls = [u1, JStr u2, u3] \<and> arun w 1 u1 = Inr r1 \<and> success r1 \<and>
        arun w 2 (JStr u2) = Inl e \<and> arun w 3 u3 = Inr r3 \<and> success r3"
    for u1 r1 u2 e u3 r3
    using that
    by (simp add: fetched_entries_def raised_entries_def failed_to_crawl_def format_value_def
        eval_nat_numeral)
  ultimately show ?thesis by blast
qed

theorem follow_up_exceptions_isolated_witness:
  "arun second_raises 0 (JStr ''https://example.com'') = Inr page \<and> success page \<and>
   arun second_raises 2 (JStr ''https://example.com/b'') = Inl ''timeout'' \<and>
   fst (execute_with_monitoring second_raises ''https://example.com'' 0 fallback_context
          (new_crawler second_raises)) =
     Inr \<lparr>primary_content = primary_entry second_raises ''https://example.com'' page,
           discovered_opportunities =
             [opportunity (JStr ''https://example.com/a'') page,
              opportunity (JStr ''https://example.com/c'') page],
           performance_metrics = [],
           adaptation_log = [''Failed to crawl https://example.com/b: timeout'']\<rparr>"
proof -
  have a: "arun second_raises i u = (if i = 2 then Inl ''timeout'' else Inr page)" for i u
    by (simp add: second_raises_def three_links_def recommending_sel)
  have p: "arun second_raises 0 (JStr ''https://example.com'') = Inr page"
    by (simp add: a)
  have s: "success page"
    by (simp add: page_def)
  have l: "[JStr ''https://example.com/a'', JStr ''https://example.com/b'', JStr ''https://example.com/c'']
      = take 3 (fst (identify_follow_up_links second_raises page fallback_context 0
          (emit (FetchCall 0 (JStr ''https://example.com'')) (new_crawler second_raises))))"
    by (simp add: second_raises_def three_links_def recommending_links)
  show ?thesis
    using follow_up_exceptions_isolated [OF p s deep_research_follows l]
    by (simp add: a s)
qed

text \<open>
  C7 as stated fails: when the second of three follow-up fetches returns an outcome whose
  success flag is false, nothing is caught and the adaptation log stays empty.
\<close>

theorem unsuccessful_follow_up_not_logged:
  "arun second_unsuccessful 0 (JStr ''https://example.com'') = Inr page \<and> success page \<and>
   arun second_unsuccessful 2 (JStr ''https://example.com/b'') = Inr no_page \<and>
   \<not> success no_page \<and>
   fst (execute_with_monitoring second_unsuccessful ''https://example.com'' 0 fallback_context
          (new_crawler second_unsuccessful)) =
     Inr \<lparr>primary_content = primary_entry second_unsuccessful ''https://example.com'' page,
           discovered_opportunities =
             [opportunity (JStr ''https://example.com/a'') page,
              opportunity (JStr ''https://example.com/c'') page],
           performance_metrics = [],
           adaptation_log = []\<rparr>"
proof -
  have a: "arun second_unsuccessful i u = (if i = 2 then Inr no_page else Inr page)" for i u
    by (simp add: second_unsuccessful_def three_links_def recommending_sel)
  have p: "arun second_unsuccessful 0 (JStr ''https://example.com'') = Inr page"
    by (simp add: a)
  have s: "success page" "\<not> success no_page"
    by (simp_all add: page_def no_page_def)
  have l: "take 3 (fst (identify_follow_up_links second_unsuccessful page fallback_context 0
          (emit (FetchCall 0 (JStr ''https://example.com'')) (new_crawler second_unsuccessful))))
      = [JStr ''https://example.com/a'', JStr ''https://example.com/b'', JStr ''https://example.com/c'']"
    by (simp add: second_unsuccessful_def three_links_def recommending_links)
  have f: "fetched_entries second_unsuccessful (Suc 0)
        [JStr ''https://example.com/a'', JStr ''https://example.com/b'', JStr ''https://example.com/c'']
      = [opportunity (JStr ''https://example.com/a'') page,
         opportunity (JStr ''https://example.com/c'') page]"
    by (simp add: fetched_entries_def a s)
  have r: "raised_entries second_unsuccessful (Suc 0)
        [JStr ''https://example.com/a'', JStr ''https://example.com/b'', JStr ''https://example.com/c'']
      = []"
    by (simp add: raised_entries_def a)
  show ?thesis
    by (simp add: execute_follow_ups [OF p s(1) deep_research_follows] Let_def l f r a s)
qed

section \<open>Strategy Selector\<close>

lemma alloc_sel:
  "strategies (alloc d s) = strategies s"
  "learned_patterns (alloc d s) = learned_patterns s"
  "success_history (alloc d s) = success_history s"
  "trace (alloc d s) = trace s"
  "objects (alloc d s) = objects s @ [heap_object d (length (containers s))]"
  "containers (alloc d s) = containers s @ heap_containers d"
  by (simp_all add: alloc_def)

lemma CrawlStrategy_alloc: "CrawlStrategy d s = (length (objects s), alloc d s)"
  by (simp add: CrawlStrategy_eq alloc_def)

lemma set_depth_limit_alloc:
  "set_object (length (objects s)) (\<lambda>ob. ob\<lparr>depth_limit := v\<rparr>) (alloc d s) = alloc (d\<lparr>depth_limit := v\<rparr>) s"
  by (simp add: set_object_def alloc_def heap_object_def heap_containers_def)

lemma set_follow_links_alloc:
  "set_object (length (objects s)) (\<lambda>ob. ob\<lparr>follow_links := v\<rparr>) (alloc d s) = alloc (d\<lparr>follow_links := v\<rparr>) s"
  by (simp add: set_object_def alloc_def heap_object_def heap_containers_def)

lemma list_extend_alloc:
  "list_extend (extract_patterns (objects (alloc d s) ! length (objects s))) v (alloc d s) =
     (case value_extend d v of Inl e \<Rightarrow> Inl e | Inr d' \<Rightarrow> Inr (alloc d' s))"
  by (simp add: list_extend_def value_extend_def alloc_def heap_object_def heap_containers_def
      nth_append list_update_append split: json.splits sum.splits)

lemma apply_depth_limit_alloc:
  "apply_depth_limit mods (length (objects s)) (alloc d s) =
     (case value_depth_limit mods d of Inl e \<Rightarrow> Inl e | Inr d' \<Rightarrow> Inr (alloc d' s))"
  by (simp add: apply_depth_limit_def value_depth_limit_def set_depth_limit_alloc
      split: sum.splits bool.splits)

lemma apply_follow_links_alloc:
  "apply_follow_links mods (length (objects s)) (alloc d s) =
     (case value_follow_links mods d of Inl e \<Rightarrow> Inl e | Inr d' \<Rightarrow> Inr (alloc d' s))"
  by (simp add: apply_follow_links_def value_follow_links_def set_follow_links_alloc
      split: sum.splits bool.splits)

lemma apply_additional_patterns_alloc:
  "apply_additional_patterns mods (length (objects s)) (alloc d s) =
     (case value_additional_patterns mods d of Inl e \<Rightarrow> Inl e | Inr d' \<Rightarrow> Inr (alloc d' s))"
  by (simp add: apply_additional_patterns_def value_additional_patterns_def list_extend_alloc
      split: sum.splits bool.splits)

lemma modify_strategy_alloc:
  "\<exists>d'. snd (modify_strategy r mods s) = alloc d' s \<and>
        (case modified_value (asdict s r) mods of
           Inl e \<Rightarrow> fst (modify_strategy r mods s) = Inl e
         | Inr d \<Rightarrow> fst (modify_strategy r mods s) = Inr (length (objects s)) \<and> d' = d)"
  by (auto simp: modify_strategy_def modified_value_def CrawlStrategy_alloc
      apply_depth_limit_alloc apply_additional_patterns_alloc apply_follow_links_alloc
      split: sum.splits)

lemma asdict_alloc_new: "asdict (alloc d s) (length (objects s)) = d"
  by (simp add: asdict_def alloc_def heap_object_def heap_containers_def nth_append)

lemma refs_ok_alloc_new: "refs_ok (alloc d s) (length (objects s))"
  by (simp add: refs_ok_def alloc_def heap_object_def heap_containers_def nth_append)

lemma asdict_alloc_old: "refs_ok s r \<Longrightarrow> asdict (alloc d s) r = asdict s r"
  by (simp add: asdict_def alloc_def refs_ok_def nth_append)

lemma refs_ok_alloc_old: "refs_ok s r \<Longrightarrow> refs_ok (alloc d s) r"
  by (simp add: refs_ok_def alloc_def nth_append)

lemma asdict_emit: "asdict (emit e s) r = asdict s r"
  by (simp add: asdict_def emit_def)

lemma refs_ok_emit: "refs_ok (emit e s) r = refs_ok s r"
  by (simp add: refs_ok_def emit_def)

lemma catalog_dict_emit: "catalog_dict (emit e s) = catalog_dict s"
  by (simp add: catalog_dict_def asdict_emit emit_simps)

lemma heap_ok_emit: "heap_ok (emit e s) = heap_ok s"
  by (simp add: heap_ok_def catalog_dict_emit refs_ok_emit emit_simps cong: list.pred_cong)

lemma catalog_dict_alloc:
  "list_all (refs_ok s) (map snd (strategies s)) \<Longrightarrow> catalog_dict (alloc d s) = catalog_dict s"
  by (simp add: catalog_dict_def alloc_sel list_all_iff asdict_alloc_old)

lemma heap_ok_alloc: "heap_ok s \<Longrightarrow> heap_ok (alloc d s)"
  by (simp add: heap_ok_def catalog_dict_alloc alloc_sel list_all_iff refs_ok_alloc_old)

lemma map_of_map_snd:
  "map_of (map (\<lambda>kr. (fst kr, f (snd kr))) xs) key = map_option f (map_of xs key)"
  by (induction xs) simp_all

lemma map_of_catalog_dict:
  "map_of (catalog_dict s) key = map_option (asdict s) (map_of (strategies s) key)"
  by (simp add: catalog_dict_def map_of_map_snd)

lemma value_lookup_catalog:
  "value_lookup (catalog_dict s) k =
     (case catalog_lookup s k of Inl e \<Rightarrow> Inl e | Inr r \<Rightarrow> Inr (asdict s r))"
  by (simp add: value_lookup_def catalog_lookup_def map_of_catalog_dict
      split: json.splits option.splits)

lemma catalog_lookup_refs_ok:
  "list_all (refs_ok s) (map snd (strategies s)) \<Longrightarrow> catalog_lookup s k = Inr r \<Longrightarrow> refs_ok s r"
  by (fastforce simp: catalog_lookup_def list_all_iff split: json.splits option.splits
      dest: map_of_SomeD)

lemma catalog_lookup_emit: "catalog_lookup (emit e s) k = catalog_lookup s k"
  by (simp add: catalog_lookup_def emit_simps split: json.splits)

lemma catalog_lookup_alloc: "catalog_lookup (alloc d s) k = catalog_lookup s k"
  by (simp add: catalog_lookup_def alloc_sel split: json.splits)

lemma select_decision_value:
  assumes "heap_ok s"
  shows "(\<exists>d'. snd (select_decision w p s) = alloc d' s \<or> snd (select_decision w p s) = s) \<and>
     (case decided_value base_catalog (claude_create w p) of
        Inl e \<Rightarrow> fst (select_decision w p s) = Inl e
      | Inr d \<Rightarrow> \<exists>r. fst (select_decision w p s) = Inr r \<and>
                    refs_ok (snd (select_decision w p s)) r \<and>
                    asdict (snd (select_decision w p s)) r = d)"
proof -
  from assms have c: "catalog_dict s = base_catalog"
    and o: "list_all (refs_ok s) (map snd (strategies s))"
    by (simp_all add: heap_ok_def)
  show ?thesis
  proof (cases "claude_create w p")
    case (Unavailable m)
    then show ?thesis by (simp add: select_decision_def decided_value_def)
  next
    case Malformed
    then show ?thesis by (simp add: select_decision_def decided_value_def)
  next
    case (Parsed decision)
    show ?thesis
    proof (cases "py_get decision ''selected_strategy'' (JStr ''deep_research'')")
      case (Inl e)
      with Parsed show ?thesis by (simp add: select_decision_def decided_value_def)
    next
      case n: (Inr strategy_name)
      show ?thesis
      proof (cases "py_get decision ''modifications'' (JObj [])")
        case (Inl e)
        with Parsed n show ?thesis by (simp add: select_decision_def decided_value_def)
      next
        case m: (Inr modifications)
        show ?thesis
        proof (cases "catalog_lookup s strategy_name")
          case (Inl e)
          with Parsed n m show ?thesis
            using value_lookup_catalog [of s strategy_name]
            by (simp add: select_decision_def decided_value_def c)
        next
          case (Inr r)
          then have r: "refs_ok s r" using o by (rule catalog_lookup_refs_ok [rotated])
          have v: "value_lookup base_catalog strategy_name = Inr (asdict s r)"
            using value_lookup_catalog [of s strategy_name] Inr by (simp add: c)
          show ?thesis
          proof (cases "py_truthy modifications")
            case False
            with Parsed n m Inr r v show ?thesis
              by (simp add: select_decision_def decided_value_def)
          next
            case True
            obtain d' where d': "snd (modify_strategy r modifications s) = alloc d' s"
              and f: "case modified_value (asdict s r) modifications of
                   Inl e \<Rightarrow> fst (modify_strategy r modifications s) = Inl e
                 | Inr d \<Rightarrow> fst (modify_strategy r modifications s) = Inr (length (objects s)) \<and> d' = d"
              using modify_strategy_alloc [of r modifications s] by blast
            have sd: "select_decision w p s = modify_strategy r modifications s"
              using Parsed n m Inr True by (simp add: select_decision_def)
            have dv: "decided_value base_catalog (claude_create w p) = modified_value (asdict s r) modifications"
              using Parsed n m v True by (simp add: decided_value_def)
            show ?thesis
              using d' f
              by (auto simp: sd dv asdict_alloc_new refs_ok_alloc_new split: sum.splits)
          qed
        qed
      qed
    qed
  qed
qed

lemma value_lookup_deep_research:
  "value_lookup base_catalog (JStr ''deep_research'') = Inr deep_research"
  by (simp add: value_lookup_def base_catalog_def)

lemma selected_value_total: "\<exists>d. selected_value base_catalog reply = Inr d"
  by (simp add: selected_value_def value_lookup_deep_research split: sum.splits)

lemma heap_ok_deep_research:
  assumes "heap_ok s"
  obtains r where "catalog_lookup s (JStr ''deep_research'') = Inr r" "refs_ok s r"
    "asdict s r = deep_research"
proof -
  from assms have c: "catalog_dict s = base_catalog"
    and o: "list_all (refs_ok s) (map snd (strategies s))"
    by (simp_all add: heap_ok_def)
  from value_lookup_catalog [of s "JStr ''deep_research''"]
  obtain r where r: "catalog_lookup s (JStr ''deep_research'') = Inr r" "asdict s r = deep_research"
    by (auto simp: c value_lookup_deep_research split: sum.splits)
  from o r(1) have "refs_ok s r" by (rule catalog_lookup_refs_ok)
  with r show thesis by (intro that)
qed

lemma select_strategy_value:
  assumes h: "heap_ok s" and u: "urlparse_netloc w url = Some netloc"
    and d: "selected_value base_catalog (claude_create w (strategy_prompt c url netloc s)) = Inr d"
  shows "\<exists>r s'. select_strategy w c url s = (Inr r, s') \<and> refs_ok s' r \<and> asdict s' r = d \<and>
           heap_ok s' \<and>
           (s' = emit (OracleCall (strategy_prompt c url netloc s)) s \<or>
            (\<exists>d'. s' = alloc d' (emit (OracleCall (strategy_prompt c url netloc s)) s)))"
proof -
  let ?p = "strategy_prompt c url netloc s"
  let ?s1 = "emit (OracleCall ?p) s"
  let ?s2 = "snd (select_decision w ?p ?s1)"
  have h1: "heap_ok ?s1" using h by (simp add: heap_ok_emit)
  from select_decision_value [OF h1, of w ?p]
  have st: "(\<exists>d'. ?s2 = alloc d' ?s1) \<or> ?s2 = ?s1"
    and v: "case decided_value base_catalog (claude_create w ?p) of
        Inl e \<Rightarrow> fst (select_decision w ?p ?s1) = Inl e
      | Inr d \<Rightarrow> \<exists>r. fst (select_decision w ?p ?s1) = Inr r \<and> refs_ok ?s2 r \<and> asdict ?s2 r = d"
    by blast+
  from st h1 have h2: "heap_ok ?s2" by (auto simp: heap_ok_alloc)
  have sel: "select_strategy w c url s =
      (case fst (select_decision w ?p ?s1) of
         Inr r \<Rightarrow> (Inr r, ?s2)
       | Inl e \<Rightarrow> (catalog_lookup ?s2 (JStr ''deep_research''), ?s2))"
    using u by (simp add: select_strategy_def Let_def split: prod.splits sum.splits)
  show ?thesis
  proof (cases "decided_value base_catalog (claude_create w ?p)")
    case (Inr d0)
    with d have "d0 = d" by (simp add: selected_value_def)
    with v Inr obtain r where "fst (select_decision w ?p ?s1) = Inr r" "refs_ok ?s2 r" "asdict ?s2 r = d"
      by auto
    with h2 st show ?thesis by (auto simp: sel)
  next
    case (Inl e)
    with d have dd: "d = deep_research"
      by (simp add: selected_value_def value_lookup_deep_research)
    from v Inl have f: "fst (select_decision w ?p ?s1) = Inl e" by simp
    from h2 obtain r where "catalog_lookup ?s2 (JStr ''deep_research'') = Inr r" "refs_ok ?s2 r"
      "asdict ?s2 r = deep_research"
      by (rule heap_ok_deep_research)
    with h2 st show ?thesis by (auto simp: sel f dd)
  qed
qed

lemma heap_ok_new_crawler: "heap_ok (new_crawler w)"
  by (simp add: heap_ok_def catalog_dict_new_crawler new_crawler_sel refs_ok_def heap_object_def
      heap_containers_def)


lemma select_decision_fails:
  assumes "claude_create w p = Unavailable m \<or> claude_create w p = Malformed \<or>
      (\<exists>v. claude_create w p = Parsed v \<and> (\<forall>kvs. v \<noteq> JObj kvs)) \<or>
      (\<exists>kvs k. claude_create w p = Parsed (JObj kvs) \<and> map_of kvs ''selected_strategy'' = Some k \<and>
         k \<notin> JStr ` fst ` set (strategies s))"
  shows "\<exists>e. select_decision w p s = (Inl e, s)"
proof -
  have get: "\<exists>e. py_get v k dflt = Inl e" if "\<forall>kvs. v \<noteq> JObj kvs" for v k dflt
    using that by (cases v) simp_all
  have look: "\<exists>e. catalog_lookup s k = Inl e" if "k \<notin> JStr ` fst ` set (strategies s)" for k
  proof (cases k)
    case (JStr key)
    with that have "key \<notin> fst ` set (strategies s)" by auto
    then have "map_of (strategies s) key = None" by (simp add: map_of_eq_None_iff)
    with JStr show ?thesis by (simp add: catalog_lookup_def)
  qed (simp_all add: catalog_lookup_def)
  from assms consider (a) "claude_create w p = Unavailable m" | (b) "claude_create w p = Malformed"
    | (c) v where "claude_create w p = Parsed v" "\<forall>kvs. v \<noteq> JObj kvs"
    | (d) kvs k where "claude_create w p = Parsed (JObj kvs)" "map_of kvs ''selected_strategy'' = Some k"
        "k \<notin> JStr ` fst ` set (strategies s)"
    by blast
  then show ?thesis
  proof cases
    case a
    then show ?thesis by (simp add: select_decision_def)
  next
    case b
    then show ?thesis by (simp add: select_decision_def)
  next
    case c
    from get [OF c(2)] obtain e where "py_get v ''selected_strategy'' (JStr ''deep_research'') = Inl e"
      by blast
    with c(1) show ?thesis by (simp add: select_decision_def)
  next
    case d
    from look [OF d(3)] obtain e where "catalog_lookup s k = Inl e" by blast
    with d(1,2) show ?thesis by (simp add: select_decision_def)
  qed
qed


lemma select_strategy_fallback:
  assumes h: "heap_ok s" and u: "urlparse_netloc w url = Some netloc"
    and p: "p = strategy_prompt c url netloc s"
    and f: "claude_create w p = Unavailable m \<or> claude_create w p = Malformed \<or>
      (\<exists>v. claude_create w p = Parsed v \<and> (\<forall>kvs. v \<noteq> JObj kvs)) \<or>
      (\<exists>kvs k. claude_create w p = Parsed (JObj kvs) \<and> map_of kvs ''selected_strategy'' = Some k \<and>
         k \<notin> JStr ` fst ` set (strategies s))"
  shows "\<exists>r. select_strategy w c url s = (Inr r, emit (OracleCall p) s) \<and>
             map_of (strategies s) ''deep_research'' = Some r \<and> asdict s r = deep_research"
proof -
  from f have "claude_create w p = Unavailable m \<or> claude_create w p = Malformed \<or>
      (\<exists>v. claude_create w p = Parsed v \<and> (\<forall>kvs. v \<noteq> JObj kvs)) \<or>
      (\<exists>kvs k. claude_create w p = Parsed (JObj kvs) \<and> map_of kvs ''selected_strategy'' = Some k \<and>
         k \<notin> JStr ` fst ` set (strategies (emit (OracleCall p) s)))"
    by (simp add: emit_simps)
  from select_decision_fails [OF this]
  obtain e where e: "select_decision w p (emit (OracleCall p) s) = (Inl e, emit (OracleCall p) s)" ..
  from h obtain r where r: "catalog_lookup s (JStr ''deep_research'') = Inr r" "asdict s r = deep_research"
    by (rule heap_ok_deep_research)
  from r(1) have "map_of (strategies s) ''deep_research'' = Some r"
    by (simp add: catalog_lookup_def split: option.splits)
  moreover have "select_strategy w c url s = (Inr r, emit (OracleCall p) s)"
    using u e r(1) unfolding p
    by (simp add: select_strategy_def Let_def catalog_lookup_emit)
  ultimately show ?thesis using r(2) by blast
qed

lemma example_netloc: "urlparse_netloc example_world ''https://example.com'' = Some ''example.com''"
  by (simp add: example_world_def)

lemma replying_sel:
  "urlparse_netloc (replying v w) = urlparse_netloc w"
  "claude_create (replying v w) p = Parsed v"
  "arun (replying v w) = arun w"
  by (simp_all add: replying_def)

lemma step_shape_facts:
  assumes "s' = emit e s \<or> (\<exists>d'. s' = alloc d' (emit e s))"
  shows "take (length (objects s)) (objects s') = objects s"
    and "take (length (containers s)) (containers s') = containers s"
    and "strategies s' = strategies s"
    and "learned_patterns s' = learned_patterns s"
    and "success_history s' = success_history s"
    and "trace s' = trace s @ [e]"
    and "refs_ok s r \<Longrightarrow> asdict s' r = asdict s r"
  using assms by (auto simp: emit_simps alloc_sel asdict_emit asdict_alloc_old refs_ok_emit)

lemma strategy_prompt_cong:
  "catalog_dict s' = catalog_dict s \<Longrightarrow> strategy_prompt c url netloc s' = strategy_prompt c url netloc s"
  by (simp add: strategy_prompt_def)

lemma select_strategy_unparsed:
  "urlparse_netloc w url = None \<Longrightarrow> select_strategy w c url s = (Inl ValueError, s)"
  by (simp add: select_strategy_def)

lemma select_decision_trace: "trace (snd (select_decision w p s)) = trace s"
proof -
  have "trace (snd (modify_strategy r mods s)) = trace s" for r mods
    using modify_strategy_alloc [of r mods s] by (auto simp: alloc_sel)
  then show ?thesis
    by (simp add: select_decision_def split: oracle_reply.splits sum.splits)
qed

lemma select_strategy_events:
  assumes "urlparse_netloc w url = Some netloc"
  shows "events_since s (snd (select_strategy w c url s)) = [OracleCall (strategy_prompt c url netloc s)]"
proof -
  let ?p = "strategy_prompt c url netloc s"
  have "snd (select_strategy w c url s) = snd (select_decision w ?p (emit (OracleCall ?p) s))"
    using assms by (simp add: select_strategy_def Let_def split: prod.splits sum.splits)
  then show ?thesis
    by (simp add: events_since_def select_decision_trace emit_simps)
qed

lemma heap_ok_select_strategy:
  assumes "heap_ok s"
  shows "heap_ok (snd (select_strategy w c url s))"
proof (cases "urlparse_netloc w url")
  case None
  with assms show ?thesis by (simp add: select_strategy_unparsed)
next
  case (Some netloc)
  obtain d where "selected_value base_catalog (claude_create w (strategy_prompt c url netloc s)) = Inr d"
    using selected_value_total by blast
  from select_strategy_value [OF assms Some this] show ?thesis by auto
qed

lemma modifying_value:
  "selected_value base_catalog (claude_create modifying p) = Inr modified_quick_scan"
  by (simp add: modifying_def replying_sel selected_value_def decided_value_def value_lookup_def
      base_catalog_def modified_value_def value_depth_limit_def value_additional_patterns_def
      value_follow_links_def value_extend_def quick_scan_def modified_quick_scan_def)

lemma modifying_netloc: "urlparse_netloc modifying ''https://example.com'' = Some ''example.com''"
  by (simp add: modifying_def replying_sel example_netloc)





text \<open>
  C8. Whenever \<^verbatim>\<open>select_strategy\<close> calls the oracle (with the prompt \<open>p\<close>) and the call
  fails, or its reply is not JSON or not a JSON object, or the reply names a strategy that
  is not a catalog key, the method returns the catalog's own \<^verbatim>\<open>deep_research\<close> object,
  which holds the values the catalog was built with. The result is a function of the
  arguments, and the crawler is left as it was: the call to the oracle is the only effect.
  (The oracle is called for every URL that \<^verbatim>\<open>urlparse\<close> accepts.)
\<close>

theorem fallback_is_deep_research:
  assumes "heap_ok s"
    and "OracleCall p \<in> set (events_since s (snd (select_strategy w c url s)))"
    and "claude_create w p = Unavailable m \<or> claude_create w p = Malformed \<or>
      (\<exists>v. claude_create w p = Parsed v \<and> (\<forall>kvs. v \<noteq> JObj kvs)) \<or>
      (\<exists>kvs k. claude_create w p = Parsed (JObj kvs) \<and> map_of kvs ''selected_strategy'' = Some k \<and>
         k \<notin> JStr ` fst ` set (strategies s))"
  shows "\<exists>r. select_strategy w c url s = (Inr r, s\<lparr>trace := trace s @ [OracleCall p]\<rparr>) \<and>
             map_of (strategies s) ''deep_research'' = Some r \<and> asdict s r = deep_research"
proof (cases "urlparse_netloc w url")
  case None
  with assms(2) show ?thesis
    by (simp add: select_strategy_unparsed events_since_def)
next
  case (Some netloc)
  with assms(2) have "p = strategy_prompt c url netloc s"
    by (simp add: select_strategy_events)
  from select_strategy_fallback [OF assms(1) Some this assms(3)] show ?thesis
    by (simp add: emit_def)
qed

theorem fallback_is_deep_research_witness:
  "events_since (new_crawler example_world)
     (snd (select_strategy example_world fallback_context ''https://example.com''
            (new_crawler example_world)))
     = [OracleCall (strategy_prompt fallback_context ''https://example.com'' ''example.com''
          (new_crawler example_world))] \<and>
   claude_create example_world (strategy_prompt fallback_context ''https://example.com''
       ''example.com'' (new_crawler example_world)) = Unavailable ''timeout'' \<and>
   select_strategy example_world fallback_context ''https://example.com'' (new_crawler example_world)
     = (Inr 0, (new_crawler example_world)
          \<lparr>trace := [OracleCall (strategy_prompt fallback_context ''https://example.com''
                 ''example.com'' (new_crawler example_world))]\<rparr>) \<and>
   asdict (new_crawler example_world) 0 = deep_research \<and>
   claude_create unknown_strategy (strategy_prompt fallback_context ''https://example.com''
       ''example.com'' (new_crawler unknown_strategy))
     = Parsed (JObj [(''selected_strategy'', JStr ''stealth_mode'')]) \<and>
   select_strategy unknown_strategy fallback_context ''https://example.com'' (new_crawler unknown_strategy)
     = (Inr 0, (new_crawler unknown_strategy)
          \<lparr>trace := [OracleCall (strategy_prompt fallback_context ''https://example.com''
                 ''example.com'' (new_crawler unknown_strategy))]\<rparr>)"
proof -
  let ?p = "\<lambda>w. strategy_prompt fallback_context ''https://example.com'' ''example.com'' (new_crawler w)"
  have a: "claude_create example_world p = Unavailable ''timeout''" for p
    by (simp add: example_world_def)
  have b: "claude_create unknown_strategy p = Parsed (JObj [(''selected_strategy'', JStr ''stealth_mode'')])"
    for p
    by (simp add: unknown_strategy_def replying_sel)
  have k: "JStr ''stealth_mode'' \<notin> JStr ` fst ` set (strategies (new_crawler unknown_strategy))"
    by (simp add: new_crawler_sel)
  have u: "urlparse_netloc unknown_strategy ''https://example.com'' = Some ''example.com''"
    by (simp add: unknown_strategy_def replying_sel example_netloc)
  have e1: "OracleCall (?p example_world) \<in> set (events_since (new_crawler example_world)
     (snd (select_strategy example_world fallback_context ''https://example.com''
            (new_crawler example_world))))"
    by (simp add: select_strategy_events [OF example_netloc])
  have e2: "OracleCall (?p unknown_strategy) \<in> set (events_since (new_crawler unknown_strategy)
     (snd (select_strategy unknown_strategy fallback_context ''https://example.com''
            (new_crawler unknown_strategy))))"
    by (simp add: select_strategy_events [OF u])
  from fallback_is_deep_research [where m = "''timeout''", OF heap_ok_new_crawler e1] a
  have 1: "select_strategy example_world fallback_context ''https://example.com'' (new_crawler example_world)
     = (Inr 0, (new_crawler example_world)\<lparr>trace := [OracleCall (?p example_world)]\<rparr>) \<and>
     asdict (new_crawler example_world) 0 = deep_research"
    by (auto simp: new_crawler_sel)
  from fallback_is_deep_research [OF heap_ok_new_crawler e2] b k
  have 2: "select_strategy unknown_strategy fallback_context ''https://example.com'' (new_crawler unknown_strategy)
     = (Inr 0, (new_crawler unknown_strategy)\<lparr>trace := [OracleCall (?p unknown_strategy)]\<rparr>)"
    by (auto simp: new_crawler_sel)
  have e0: "events_since (new_crawler example_world)
     (snd (select_strategy example_world fallback_context ''https://example.com''
            (new_crawler example_world))) = [OracleCall (?p example_world)]"
    by (rule select_strategy_events [OF example_netloc])
  from 1 have 1: "select_strategy example_world fallback_context ''https://example.com''
       (new_crawler example_world)
     = (Inr 0, (new_crawler example_world)\<lparr>trace := [OracleCall (?p example_world)]\<rparr>)"
    and 3: "asdict (new_crawler example_world) 0 = deep_research"
    by blast+
  show ?thesis
    by (intro conjI) (rule e0, rule a, rule 1, rule 3, rule b, rule 2)
qed

text \<open>
  C9. Two calls of \<^verbatim>\<open>select_strategy\<close> with the same context and URL, against oracles
  that give the same replies, return equal strategy values (or raise the same exception).
  The modifications go to a new object: every object and every container that existed
  before a call is unchanged after it, so the catalog holds the same values before the
  first call, between the calls and after the second, and the strategy the first call
  returned is not changed by the second.
\<close>

theorem select_strategy_repeatable:
  assumes h: "heap_ok s" and o: "claude_create w2 = claude_create w"
    and u: "urlparse_netloc w2 = urlparse_netloc w"
  shows "let (r1, s1) = select_strategy w c url s;
             (r2, s2) = select_strategy w2 c url s1
         in map_sum id (asdict s1) r1 = map_sum id (asdict s2) r2 \<and>
            map_sum id (asdict s2) r1 = map_sum id (asdict s1) r1 \<and>
            catalog_dict s1 = catalog_dict s \<and> catalog_dict s2 = catalog_dict s \<and>
            take (length (objects s)) (objects s1) = objects s \<and>
            take (length (containers s)) (containers s1) = containers s \<and>
            take (length (objects s1)) (objects s2) = objects s1 \<and>
            take (length (containers s1)) (containers s2) = containers s1"
proof (cases "urlparse_netloc w url")
  case None
  then show ?thesis
    by (simp add: select_strategy_unparsed u)
next
  case (Some netloc)
  let ?p = "strategy_prompt c url netloc s"
  obtain d where d: "selected_value base_catalog (claude_create w ?p) = Inr d"
    using selected_value_total by blast
  from select_strategy_value [OF h Some d]
  obtain r1 s1 where 1: "select_strategy w c url s = (Inr r1, s1)" "refs_ok s1 r1"
      "asdict s1 r1 = d" "heap_ok s1"
      "s1 = emit (OracleCall ?p) s \<or> (\<exists>d'. s1 = alloc d' (emit (OracleCall ?p) s))"
    by blast
  from h 1(4) have c1: "catalog_dict s1 = catalog_dict s"
    by (simp add: heap_ok_def)
  let ?p2 = "strategy_prompt c url netloc s1"
  have p2: "?p2 = ?p" using c1 by (rule strategy_prompt_cong)
  have d2: "selected_value base_catalog (claude_create w2 ?p2) = Inr d"
    using d by (simp add: p2 o)
  have u2: "urlparse_netloc w2 url = Some netloc"
    using Some by (simp add: u)
  from select_strategy_value [OF 1(4) u2 d2]
  obtain r2 s2 where 2: "select_strategy w2 c url s1 = (Inr r2, s2)" "refs_ok s2 r2"
      "asdict s2 r2 = d" "heap_ok s2"
      "s2 = emit (OracleCall ?p2) s1 \<or> (\<exists>d'. s2 = alloc d' (emit (OracleCall ?p2) s1))"
    by blast
  from 1(4) 2(4) have c2: "catalog_dict s2 = catalog_dict s"
    by (simp add: heap_ok_def c1 [symmetric])
  have k: "asdict s2 r1 = asdict s1 r1"
    using 2(5) 1(2) by (rule step_shape_facts(7))
  show ?thesis
    using step_shape_facts(1,2) [OF 1(5)] step_shape_facts(1,2) [OF 2(5)]
    by (simp add: 1 2 c1 c2 k)
qed

theorem select_strategy_repeatable_witness:
  "heap_ok (new_crawler modifying) \<and>
   (let (r1, s1) = select_strategy modifying fallback_context ''https://example.com''
                     (new_crawler modifying);
        (r2, s2) = select_strategy modifying fallback_context ''https://example.com'' s1
    in map_sum id (asdict s1) r1 = Inr modified_quick_scan \<and>
       map_sum id (asdict s2) r2 = Inr modified_quick_scan \<and>
       map_sum id (asdict s2) r1 = Inr modified_quick_scan \<and>
       catalog_dict s1 = base_catalog \<and> catalog_dict s2 = base_catalog)"
proof -
  let ?s = "new_crawler modifying"
  obtain r1 s1 where 1: "select_strategy modifying fallback_context ''https://example.com'' ?s = (r1, s1)"
    by (cases "select_strategy modifying fallback_context ''https://example.com'' ?s")
  obtain r2 s2 where 2: "select_strategy modifying fallback_context ''https://example.com'' s1 = (r2, s2)"
    by (cases "select_strategy modifying fallback_context ''https://example.com'' s1")
  from select_strategy_value [where w = modifying and c = fallback_context
      and s = "new_crawler modifying", OF heap_ok_new_crawler modifying_netloc modifying_value]
  have v: "map_sum id (asdict s1) r1 = Inr modified_quick_scan"
    by (auto simp: 1)
  from select_strategy_repeatable [where s = "new_crawler modifying" and w = modifying
      and ?w2.0 = modifying and c = fallback_context and url = "''https://example.com''",
      OF heap_ok_new_crawler refl refl]
  show ?thesis
    by (simp add: 1 2 v heap_ok_new_crawler catalog_dict_new_crawler)
qed




section \<open>Intent Analyzer\<close>

lemma analyze_intent_state:
  "snd (analyze_intent w q ctxt s) = emit (OracleCall (intent_prompt q ctxt s)) s"
  by (simp add: analyze_intent_def Let_def split: oracle_reply.splits sum.splits)

lemma context_of_analysis_intent:
  "context_of_analysis (JObj kvs) = Inr c \<Longrightarrow>
   user_intent c = (case map_of kvs ''primary_intent'' of None \<Rightarrow> JStr ''research'' | Some v \<Rightarrow> v)"
  by (auto simp: context_of_analysis_def)

lemma context_of_analysis_object: "\<exists>c. context_of_analysis (JObj kvs) = Inr c"
  by (simp add: context_of_analysis_def)

lemma context_of_analysis_other:
  "\<forall>kvs. v \<noteq> JObj kvs \<Longrightarrow> context_of_analysis v = Inl AttributeError"
  by (cases v) (simp_all add: context_of_analysis_def)

text \<open>
  C4 (as amended). The user intent of the context \<^verbatim>\<open>analyze_intent\<close> returns is
  \<^verbatim>\<open>research\<close> when the oracle call fails, when the reply is not a JSON object, and when
  the object has no \<^verbatim>\<open>primary_intent\<close>; otherwise it is the value the reply gives under
  \<^verbatim>\<open>primary_intent\<close>, whatever it is. Whenever the reply is not a JSON object the whole
  context is the fallback context.
\<close>

theorem analyze_intent_user_intent:
  "user_intent (fst (analyze_intent w q ctxt s)) =
     (case claude_create w (intent_prompt q ctxt s) of
        Parsed (JObj kvs) \<Rightarrow>
          (case map_of kvs ''primary_intent'' of None \<Rightarrow> JStr ''research'' | Some v \<Rightarrow> v)
      | _ \<Rightarrow> JStr ''research'') \<and>
   ((\<forall>kvs. claude_create w (intent_prompt q ctxt s) \<noteq> Parsed (JObj kvs)) \<longrightarrow>
      fst (analyze_intent w q ctxt s) = fallback_context)"
proof (cases "claude_create w (intent_prompt q ctxt s)")
  case (Unavailable m)
  then show ?thesis by (simp add: analyze_intent_def Let_def fallback_context_def)
next
  case Malformed
  then show ?thesis by (simp add: analyze_intent_def Let_def fallback_context_def)
next
  case (Parsed v)
  show ?thesis
  proof (cases "\<exists>kvs. v = JObj kvs")
    case True
    then obtain kvs where v: "v = JObj kvs" by blast
    obtain c where c: "context_of_analysis (JObj kvs) = Inr c"
      using context_of_analysis_object by blast
    from context_of_analysis_intent [OF c] Parsed v c show ?thesis
      by (simp add: analyze_intent_def Let_def)
  next
    case False
    then have "context_of_analysis v = Inl AttributeError"
      by (simp add: context_of_analysis_other)
    with Parsed False show ?thesis
      by (cases v) (simp_all add: analyze_intent_def Let_def fallback_context_def)
  qed
qed

theorem analyze_intent_user_intent_witness:
  "(\<forall>kvs. claude_create example_world (intent_prompt ''find deals'' None (new_crawler example_world))
       \<noteq> Parsed (JObj kvs)) \<and>
   fst (analyze_intent example_world ''find deals'' None (new_crawler example_world)) = fallback_context \<and>
   user_intent (fst (analyze_intent example_world ''find deals'' None (new_crawler example_world)))
     = JStr ''research''"
proof -
  have a: "claude_create example_world p = Unavailable ''timeout''" for p
    by (simp add: example_world_def)
  show ?thesis
    using analyze_intent_user_intent [of example_world "''find deals''" None "new_crawler example_world"]
    by (simp add: a fallback_context_def)
qed

text \<open>
  C4 as stated fails: an oracle reply \<^verbatim>\<open>{"primary_intent": "shopping"}\<close> gives a context
  whose intent is none of research, monitoring, discovery and extraction.
\<close>

theorem oracle_can_set_any_intent:
  "user_intent (fst (analyze_intent shopping_intent ''find deals'' None (new_crawler shopping_intent)))
     = JStr ''shopping'' \<and>
   JStr ''shopping'' \<notin> {JStr ''research'', JStr ''monitoring'', JStr ''discovery'', JStr ''extraction''}"
  by (simp add: analyze_intent_def Let_def shopping_intent_def replying_sel context_of_analysis_def)

section \<open>Orchestrator\<close>


lemma execute_state:
  "\<exists>rest. snd (execute_with_monitoring w url r c s) =
     s\<lparr>trace := trace s @ FetchCall 0 (JStr url) # rest\<rparr>"
proof (cases rule: execute_cases [where w = w and url = url and s = s and strategy = r])
  case (raised e)
  then show ?thesis
    by (intro exI [of _ "[]"]) (simp add: execute_raised_primary emit_def)
next
  case (failed pr)
  then show ?thesis
    by (intro exI [of _ "[]"]) (simp add: execute_failed_primary emit_def)
next
  case (plain pr)
  then show ?thesis
    by (intro exI [of _ "[]"]) (simp add: execute_no_follow_up emit_def)
next
  case (type_error pr e)
  then show ?thesis
    by (intro exI [of _ "[]"]) (simp add: execute_depth_not_comparable emit_def)
next
  case (follow pr)
  then show ?thesis by (simp add: execute_follow_ups Let_def) blast
qed


lemma adaptive_crawl_unparsed:
  "urlparse_netloc w url = None \<Longrightarrow>
   adaptive_crawl w url q ctxt s = (Inl ValueError, emit (OracleCall (intent_prompt q ctxt s)) s)"
  by (simp add: adaptive_crawl_def Let_def split_beta select_strategy_unparsed analyze_intent_state)

lemma adaptive_crawl_eq:
  assumes u: "urlparse_netloc w url = Some netloc"
    and sel: "select_strategy w (fst (analyze_intent w q ctxt s)) url
                (emit (OracleCall (intent_prompt q ctxt s)) s) = (Inr r, s2)"
  shows "adaptive_crawl w url q ctxt s =
      (case fst (execute_with_monitoring w url r (fst (analyze_intent w q ctxt s)) s2) of
         Inl e \<Rightarrow> (Inl e, snd (execute_with_monitoring w url r (fst (analyze_intent w q ctxt s)) s2))
       | Inr results \<Rightarrow>
           (Inr results,
            snd (learn_from_crawl w url q r results (time_time w 0)
                  (snd (execute_with_monitoring w url r (fst (analyze_intent w q ctxt s)) s2)))))"
  using sel
  by (simp add: adaptive_crawl_def Let_def split_beta analyze_intent_state
      learn_from_crawl_history [OF u] split: sum.splits prod.splits)


lemma heap_ok_frame:
  assumes "strategies s' = strategies s" and "objects s' = objects s"
    and "containers s' = containers s"
  shows "heap_ok s' = heap_ok s"
proof -
  have a: "asdict s' = asdict s"
    by (simp add: fun_eq_iff asdict_def assms)
  have r: "refs_ok s' = refs_ok s"
    by (simp add: fun_eq_iff refs_ok_def assms)
  show ?thesis
    by (simp add: heap_ok_def catalog_dict_def a r assms(1))
qed

lemma heap_ok_execute:
  "heap_ok (snd (execute_with_monitoring w url r c s)) = heap_ok s"
proof -
  obtain rest where e: "snd (execute_with_monitoring w url r c s) =
      s\<lparr>trace := trace s @ FetchCall 0 (JStr url) # rest\<rparr>"
    using execute_state by blast
  show ?thesis
    unfolding e by (rule heap_ok_frame) simp_all
qed

lemma heap_ok_learn:
  "heap_ok (snd (learn_from_crawl w url q r res t s)) = heap_ok s"
proof (cases "urlparse_netloc w url")
  case None
  then show ?thesis by (simp add: learn_from_crawl_raises)
next
  case (Some netloc)
  show ?thesis
    unfolding learn_from_crawl_history [OF Some] snd_conv
    by (rule heap_ok_frame) (simp_all add: emit_simps)
qed

lemma heap_ok_adaptive_crawl:
  assumes "heap_ok s"
  shows "heap_ok (snd (adaptive_crawl w url q ctxt s))"
proof (cases "urlparse_netloc w url")
  case None
  with assms show ?thesis by (simp add: adaptive_crawl_unparsed heap_ok_emit)
next
  case (Some netloc)
  let ?c = "fst (analyze_intent w q ctxt s)"
  let ?s1 = "emit (OracleCall (intent_prompt q ctxt s)) s"
  have h1: "heap_ok ?s1" using assms by (simp add: heap_ok_emit)
  obtain d where d: "selected_value base_catalog (claude_create w (strategy_prompt ?c url netloc ?s1)) = Inr d"
    using selected_value_total by blast
  from select_strategy_value [OF h1 Some d]
  obtain r s2 where sel: "select_strategy w ?c url ?s1 = (Inr r, s2)" and h2: "heap_ok s2"
    by blast
  show ?thesis
    by (simp add: adaptive_crawl_eq [OF Some sel] heap_ok_learn heap_ok_execute h2 split: sum.splits)
qed


lemma select_strategy_learned_patterns:
  "learned_patterns (snd (select_strategy w c url s)) = learned_patterns s"
proof -
  have m: "learned_patterns (snd (modify_strategy r mods s')) = learned_patterns s'" for r mods s'
    using modify_strategy_alloc [of r mods s'] by (auto simp: alloc_sel)
  have d: "learned_patterns (snd (select_decision w p s')) = learned_patterns s'" for p s'
    by (simp add: select_decision_def m split: oracle_reply.splits sum.splits)
  show ?thesis
  proof (cases "urlparse_netloc w url")
    case None
    then show ?thesis by (simp add: select_strategy_unparsed)
  next
    case (Some netloc)
    let ?p = "strategy_prompt c url netloc s"
    have "snd (select_strategy w c url s) = snd (select_decision w ?p (emit (OracleCall ?p) s))"
      using Some by (simp add: select_strategy_def Let_def split: prod.splits sum.splits)
    then show ?thesis by (simp add: d emit_simps)
  qed
qed

lemma adaptive_crawl_learned_patterns:
  "learned_patterns (snd (adaptive_crawl w url q ctxt s)) = learned_patterns s"
proof -
  have e: "learned_patterns (snd (execute_with_monitoring w url r c s')) = learned_patterns s'"
    for r c s'
    using execute_state [of w url r c s'] by auto
  have "learned_patterns (snd (adaptive_crawl w url q ctxt s)) =
      learned_patterns (snd (select_strategy w (fst (analyze_intent w q ctxt s)) url
        (snd (analyze_intent w q ctxt s))))"
    by (simp add: adaptive_crawl_def Let_def split_beta e learn_from_crawl_learned_patterns
        split: sum.splits prod.splits)
  then show ?thesis
    by (simp add: select_strategy_learned_patterns analyze_intent_state emit_simps)
qed













end
